theory Spec2Isabelle
  imports Main
begin

section \<open>Data model\<close>

text \<open>
  The event document of the scheduler (\<^verbatim>\<open>eventSchema\<close> in both server variants).
  Timestamps are JavaScript \<^verbatim>\<open>Date\<close> values, modelled by their epoch milliseconds
  (\<^typ>\<open>int\<close>; every value that occurs is far below \<open>2^53\<close>, so the floating-point
  arithmetic of the source is exact integer arithmetic). Object ids are modelled as
  natural numbers. The status string is \<^verbatim>\<open>"completed"\<close>, \<^verbatim>\<open>"missed"\<close> or
  \<^verbatim>\<open>null\<close>: \<open>None\<close> is the pending state. The \<^verbatim>\<open>sharedWith\<close> list of one
  server variant and the timestamps of the schema play no part in what follows and are
  left out.
\<close>

datatype level = High | Low

datatype difficulty = Easy | Medium | Hard

datatype resolved = Completed | Missed

record event =
  eid :: nat
  title :: string
  start :: int
  endt :: int
  importance :: level
  urgency :: level
  difficulty :: difficulty
  userId :: nat
  status :: "resolved option"
  isRecurring :: bool
  segmentOf :: "nat option"
  segmentIndex :: "nat option"

type_synonym db = "event list"

section \<open>Time\<close>

text \<open>
  The servers read the clock with \<^verbatim>\<open>dayjs().tz(TZ)\<close>; the model takes the instant
  \<open>now\<close> as an argument. The operating timezone is \<^verbatim>\<open>"Asia/Manila"\<close> (the
  constant of one server, the default of the other), which is UTC+8 without daylight
  saving, so a local clock reading is the instant shifted by a fixed offset. The \<^verbatim>\<open>dayjs\<close> operations the handlers use are modelled on epoch
  milliseconds: \<^verbatim>\<open>add(k, "minute" | "hour" | "day")\<close> adds the length of the unit,
  \<^verbatim>\<open>startOf("day")\<close> goes back to the local midnight, and the setters
  \<^verbatim>\<open>hour(h)\<close>, \<^verbatim>\<open>minute(m)\<close>, \<^verbatim>\<open>second(s)\<close> replace one field of the local
  clock reading.
\<close>

definition MINUTE :: int where "MINUTE = 60000"
definition HOUR :: int where "HOUR = 3600000"
definition DAY :: int where "DAY = 86400000"

definition TZ_offset :: int where
  "TZ_offset = 8 * HOUR"

definition localMs :: "int \<Rightarrow> int" where
  "localMs t = t + TZ_offset"

definition localDay :: "int \<Rightarrow> int" where
  "localDay t = localMs t div DAY"

definition localTimeOfDay :: "int \<Rightarrow> int" where
  "localTimeOfDay t = localMs t mod DAY"

definition startOfDay :: "int \<Rightarrow> int" where
  "startOfDay t = t - localTimeOfDay t"

definition setHour :: "int \<Rightarrow> int \<Rightarrow> int" where
  "setHour h t = t - (localTimeOfDay t div HOUR) * HOUR + h * HOUR"

definition setMinute :: "int \<Rightarrow> int \<Rightarrow> int" where
  "setMinute m t = t - ((localMs t mod HOUR) div MINUTE) * MINUTE + m * MINUTE"

definition setSecond :: "int \<Rightarrow> int \<Rightarrow> int" where
  "setSecond s t = t - ((localMs t mod MINUTE) div 1000) * 1000 + s * 1000"

section \<open>Suggestions\<close>

text \<open>
  \<^verbatim>\<open>buildSuggestions(conflicts, newEventDurationMin)\<close> of the chat handler. The
  \<^verbatim>\<open>label\<close> of a suggestion is a rendering of its two instants and is not part of
  the model; \<open>hint\<close> is the fixed string of the slot.
  \<^verbatim>\<open>
  const latestEnd = conflicts.reduce((acc, c) => {
    const ce = dayjs(c.end);
    return ce.isAfter(acc) ? ce : acc;
  }, dayjs(conflicts[0].end));
  const now = dayjs().tz(TZ);
  const baseStart = latestEnd.isAfter(now) ? latestEnd : now;
  const dur = Math.max(1, newEventDurationMin);
  const opt1Start = baseStart;
  const opt1End = opt1Start.add(dur, "minute");
  const opt2Start = baseStart.add(1, "hour");
  const opt2End = opt2Start.add(dur, "minute");
  const opt3Start = now.add(1, "day").startOf("day").hour(8).minute(0).second(0);
  const opt3End = opt3Start.add(dur, "minute");\<close>
\<close>

record suggestion =
  sugStart :: int
  sugEnd :: int
  hint :: string

definition latestEnd :: "event list \<Rightarrow> int" where
  "latestEnd conflicts =
     fold (\<lambda>c acc. if endt c > acc then endt c else acc) conflicts (endt (hd conflicts))"

definition buildSuggestions :: "int \<Rightarrow> event list \<Rightarrow> int \<Rightarrow> suggestion list" where
  "buildSuggestions now conflicts newEventDurationMin =
     (if conflicts = [] then []
      else
        let baseStart = (if latestEnd conflicts > now then latestEnd conflicts else now);
            dur = max 1 newEventDurationMin;
            opt1Start = baseStart;
            opt1End = opt1Start + dur * MINUTE;
            opt2Start = baseStart + 1 * HOUR;
            opt2End = opt2Start + dur * MINUTE;
            opt3Start = setSecond 0 (setMinute 0 (setHour 8 (startOfDay (now + 1 * DAY))));
            opt3End = opt3Start + dur * MINUTE
        in [\<lparr>sugStart = opt1Start, sugEnd = opt1End, hint = ''After conflict''\<rparr>,
            \<lparr>sugStart = opt2Start, sugEnd = opt2End, hint = ''+1 hour''\<rparr>,
            \<lparr>sugStart = opt3Start, sugEnd = opt3End, hint = ''Tomorrow 8:00 AM''\<rparr>])"

section \<open>Responses and the document store\<close>

text \<open>
  Every response that is not the success response of its handler: the HTTP error
  responses and the chat replies that report a rejection. Ids are already natural
  numbers here, so the \<^verbatim>\<open>isOid\<close> rejections have no counterpart. A conflict
  response carries the conflicting document and, in the chat handler, the suggestions.
\<close>

datatype error =
    AllFieldsRequired
  | InvalidDateRange
  | Conflict event "suggestion list"
  | InvalidStatus
  | EventNotFound
  | ParentNotFound
  | InvalidParentRange
  | NothingToSplit
  | BreaksTooLarge
  | TooShortToSplit
  | NoTimeRange
  | StartsInPast
  | WhichTask
  | TaskNotFound
  | NoSegments
  | SegmentNotFound
  | StillInFuture
  | NotHandled

subsection \<open>The document store\<close>

text \<open>
  The collection is a list of documents in insertion order. \<^verbatim>\<open>findById\<close> returns the
  first document with the id, \<^verbatim>\<open>find\<close> is \<^const>\<open>filter\<close>, \<^verbatim>\<open>updateMany\<close> rewrites
  every document that matches, \<^verbatim>\<open>save\<close> and \<^verbatim>\<open>findByIdAndUpdate\<close> of a status
  rewrite the documents with the id, and \<^verbatim>\<open>create\<close> appends a document under an id
  that no stored document has.
\<close>

definition findById :: "db \<Rightarrow> nat \<Rightarrow> event option" where
  "findById d i = find (\<lambda>e. eid e = i) d"

definition updateMany :: "(event \<Rightarrow> bool) \<Rightarrow> resolved \<Rightarrow> db \<Rightarrow> db" where
  "updateMany P s d = map (\<lambda>e. if P e then e\<lparr>status := Some s\<rparr> else e) d"

definition setStatusById :: "nat \<Rightarrow> resolved \<Rightarrow> db \<Rightarrow> db" where
  "setStatusById i s d = updateMany (\<lambda>e. eid e = i) s d"

definition newId :: "db \<Rightarrow> nat" where
  "newId d = Suc (fold max (map eid d) 0)"

definition create :: "event \<Rightarrow> db \<Rightarrow> event \<times> db" where
  "create e d = (let e' = e\<lparr>eid := newId d\<rparr> in (e', d @ [e']))"

fun createAll :: "event list \<Rightarrow> db \<Rightarrow> event list \<times> db" where
  "createAll [] d = ([], d)"
| "createAll (e # es) d =
     (let (e', d') = create e d; (es', d'') = createAll es d' in (e' # es', d''))"

text \<open>
  \<^verbatim>\<open>findOne(filter).sort(order)\<close> is the head of the sorted matches. The sort is a
  stable insertion sort under the given order, so documents that compare equal keep
  their insertion order.
\<close>

fun insertBy :: "('a \<Rightarrow> 'a \<Rightarrow> bool) \<Rightarrow> 'a \<Rightarrow> 'a list \<Rightarrow> 'a list" where
  "insertBy le x [] = [x]"
| "insertBy le x (y # ys) = (if le x y then x # y # ys else y # insertBy le x ys)"

definition sortBy :: "('a \<Rightarrow> 'a \<Rightarrow> bool) \<Rightarrow> 'a list \<Rightarrow> 'a list" where
  "sortBy le xs = foldr (insertBy le) xs []"

definition findOne :: "(event \<Rightarrow> bool) \<Rightarrow> (event \<Rightarrow> event \<Rightarrow> bool) \<Rightarrow> db \<Rightarrow> event option" where
  "findOne P le d = (case sortBy le (filter P d) of [] \<Rightarrow> None | e # _ \<Rightarrow> Some e)"

definition startDesc :: "event \<Rightarrow> event \<Rightarrow> bool" where
  "startDesc a b = (start a \<ge> start b)"

definition startAsc :: "event \<Rightarrow> event \<Rightarrow> bool" where
  "startAsc a b = (start a \<le> start b)"

definition indexKey :: "event \<Rightarrow> int" where
  "indexKey e = (case segmentIndex e of None \<Rightarrow> - 1 | Some k \<Rightarrow> int k)"

definition indexStartAsc :: "event \<Rightarrow> event \<Rightarrow> bool" where
  "indexStartAsc a b =
     (indexKey a < indexKey b \<or> (indexKey a = indexKey b \<and> start a \<le> start b))"

subsection \<open>Title matching\<close>

text \<open>
  The chat handler looks a task up with
  \<^verbatim>\<open>title: { $regex: new RegExp(escapeRegExp(titleGuess), "i") }\<close>: the pattern is
  an escaped literal, so the test is a case-insensitive substring test (case folding
  on the ASCII letters). \<^verbatim>\<open>titleGuess.split(/\s+/).filter(Boolean)\<close> is \<open>tokens\<close>,
  with the ASCII white space for \<^verbatim>\<open>\s\<close>.
\<close>

definition isSpace :: "char \<Rightarrow> bool" where
  "isSpace c = (c \<in> set [CHR '' '', CHR 0x09, CHR 0x0A, CHR 0x0B, CHR 0x0C, CHR 0x0D])"

definition lowerChar :: "char \<Rightarrow> char" where
  "lowerChar c =
     (case map_of (zip ''ABCDEFGHIJKLMNOPQRSTUVWXYZ'' ''abcdefghijklmnopqrstuvwxyz'') c of
        None \<Rightarrow> c
      | Some l \<Rightarrow> l)"

fun startsWith :: "'a list \<Rightarrow> 'a list \<Rightarrow> bool" where
  "startsWith [] xs = True"
| "startsWith (p # ps) [] = False"
| "startsWith (p # ps) (x # xs) = (p = x \<and> startsWith ps xs)"

fun contains :: "'a list \<Rightarrow> 'a list \<Rightarrow> bool" where
  "contains p [] = (p = [])"
| "contains p (x # xs) = (startsWith p (x # xs) \<or> contains p xs)"

definition regexI :: "string \<Rightarrow> string \<Rightarrow> bool" where
  "regexI pat s = contains (map lowerChar pat) (map lowerChar s)"

fun splitSpaces :: "string \<Rightarrow> string list" where
  "splitSpaces [] = [[]]"
| "splitSpaces (c # cs) =
     (if isSpace c then [] # splitSpaces cs
      else (case splitSpaces cs of [] \<Rightarrow> [[c]] | w # ws \<Rightarrow> (c # w) # ws))"

definition tokens :: "string \<Rightarrow> string list" where
  "tokens s = filter (\<lambda>w. w \<noteq> []) (splitSpaces s)"

section \<open>Segmentation\<close>

subsection \<open>The plan loop\<close>

text \<open>
  The loop shared by \<^verbatim>\<open>POST /events/:id/split\<close> (both server variants) and the
  \<^verbatim>\<open>SPLIT_TASK\<close> branch of \<^verbatim>\<open>POST /chat\<close>:
  \<^verbatim>\<open>
  for (let i = 0; i < n; i++) {
    const thisDur = baseSeg + (remainder > 0 ? 1 : 0);
    if (remainder > 0) remainder--;
    const segStart = cursor;
    const segEnd = segStart + thisDur * 60000;
    plan.push({ startMs: segStart, endMs: segEnd });
    cursor = segEnd;
    if (i < n - 1) cursor += brk * 60000;
  }\<close>
\<close>

record slot =
  startMs :: int
  endMs :: int

function plan_loop :: "int \<Rightarrow> int \<Rightarrow> int \<Rightarrow> int \<Rightarrow> int \<Rightarrow> int \<Rightarrow> slot list" where
  "plan_loop n brk baseSeg i remainder cursor =
     (if i < n then
        let thisDur = baseSeg + (if remainder > 0 then 1 else 0);
            remainder' = (if remainder > 0 then remainder - 1 else remainder);
            segStart = cursor;
            segEnd = segStart + thisDur * 60000;
            cursor' = (if i < n - 1 then segEnd + brk * 60000 else segEnd)
        in \<lparr>startMs = segStart, endMs = segEnd\<rparr>
             # plan_loop n brk baseSeg (i + 1) remainder' cursor'
      else [])"
  by pat_completeness auto
termination
  by (relation "measure (\<lambda>(n, brk, baseSeg, i, remainder, cursor). nat (n - i))") auto

declare plan_loop.simps [simp del]

text \<open>
  The arithmetic before the loop: \<^verbatim>\<open>totalMinutes = Math.floor((e - s) / 60000)\<close>,
  \<^verbatim>\<open>usable = totalMinutes - (n - 1) * brk\<close>, \<^verbatim>\<open>baseSeg = Math.floor(usable / n)\<close>,
  \<^verbatim>\<open>remainder = usable % n\<close>.
\<close>

definition totalMinutes :: "int \<Rightarrow> int \<Rightarrow> int" where
  "totalMinutes s e = (e - s) div 60000"

definition usable :: "int \<Rightarrow> int \<Rightarrow> int \<Rightarrow> int \<Rightarrow> int" where
  "usable s e n brk = totalMinutes s e - (n - 1) * brk"

definition make_plan :: "int \<Rightarrow> int \<Rightarrow> int \<Rightarrow> int \<Rightarrow> slot list" where
  "make_plan s e n brk =
     (let u = usable s e n brk; baseSeg = u div n; remainder = u mod n
      in plan_loop n brk baseSeg 0 remainder s)"

definition durMs :: "slot \<Rightarrow> int" where
  "durMs sl = endMs sl - startMs sl"

subsection \<open>Strings of the segment titles\<close>

text \<open>
  \<^verbatim>\<open>String.prototype.trim\<close> on the ASCII white space, the decimal rendering of
  \<^verbatim>\<open>i + 1\<close>, and the title \<^verbatim>\<open>`${baseTitle} - Segment ${i + 1}`\<close> (the dash
  is U+2014, three bytes in UTF-8).
\<close>

definition trim :: "string \<Rightarrow> string" where
  "trim s = rev (dropWhile isSpace (rev (dropWhile isSpace s)))"

definition digit :: "nat \<Rightarrow> char" where
  "digit k = ''0123456789'' ! k"

fun decimal :: "nat \<Rightarrow> string" where
  "decimal k = (if k < 10 then [digit k] else decimal (k div 10) @ [digit (k mod 10)])"

declare decimal.simps [simp del]

definition em_dash :: string where
  "em_dash = [CHR 0xE2, CHR 0x80, CHR 0x94]"

definition segmentTitle :: "string \<Rightarrow> nat \<Rightarrow> string" where
  "segmentTitle baseTitle i = baseTitle @ '' '' @ em_dash @ '' Segment '' @ decimal (i + 1)"

subsection \<open>\<^verbatim>\<open>POST /events/:id/split\<close> (server with the chat endpoint)\<close>

text \<open>
  The request body. \<open>count\<close> and \<open>breakMinutes\<close> hold the result of
  \<^verbatim>\<open>parseInt(_, 10)\<close>, \<open>None\<close> for \<^verbatim>\<open>NaN\<close>; \<^verbatim>\<open>parseInt(x, 10) || 0\<close> is
  \<open>orZero\<close>. \<open>titles\<close> is the empty list when the field is not an array.
\<close>

record split_body =
  count :: "int option"
  breakMinutes :: "int option"
  titlePrefix :: "string option"
  titles :: "string list"

definition orZero :: "int option \<Rightarrow> int" where
  "orZero v = (case v of None \<Rightarrow> 0 | Some k \<Rightarrow> k)"

definition childTitle :: "string list \<Rightarrow> string \<Rightarrow> nat \<Rightarrow> string" where
  "childTitle ts baseTitle i =
     (if i < length ts \<and> ts ! i \<noteq> [] \<and> trim (ts ! i) \<noteq> [] then trim (ts ! i)
      else segmentTitle baseTitle i)"

definition childDoc :: "event \<Rightarrow> string \<Rightarrow> slot \<Rightarrow> nat \<Rightarrow> event" where
  "childDoc parent t sl i =
     \<lparr>eid = 0, title = t, start = startMs sl, endt = endMs sl,
      importance = importance parent, urgency = urgency parent,
      difficulty = difficulty parent, userId = userId parent, status = None,
      isRecurring = False, segmentOf = Some (eid parent), segmentIndex = Some i\<rparr>"

definition post_split :: "db \<Rightarrow> nat \<Rightarrow> split_body \<Rightarrow> (error + event list) \<times> db" where
  "post_split d i body =
     (case findById d i of
        None \<Rightarrow> (Inl ParentNotFound, d)
      | Some parent \<Rightarrow>
          let s = start parent; e = endt parent in
          if \<not> e > s then (Inl InvalidParentRange, d)
          else
            let n = max 1 (orZero (count body)) in
            if n < 2 then (Inl NothingToSplit, d)
            else
              let brk = max 0 (orZero (breakMinutes body)) in
              if usable s e n brk \<le> 0 then (Inl BreaksTooLarge, d)
              else
                let plan = make_plan s e n brk;
                    baseTitle =
                      (case titlePrefix body of
                         None \<Rightarrow> title parent
                       | Some p \<Rightarrow> if trim p \<noteq> [] then trim p else title parent);
                    docs = map (\<lambda>(k, sl). childDoc parent (childTitle (titles body) baseTitle k) sl k)
                             (enumerate 0 plan);
                    (children, d') = createAll docs d
                in (Inr children, d'))"

subsection \<open>The \<^verbatim>\<open>SPLIT_TASK\<close> branch of \<^verbatim>\<open>POST /chat\<close>\<close>

text \<open>
  The text of the command is parsed before the model starts: \<open>titleGuess\<close> is
  \<^verbatim>\<open>guessTitle(text)\<close>, \<open>mCount\<close> the number matched by \<^verbatim>\<open>/\binto\s+(\d{1,2})\b/\<close>
  and \<open>mBreak\<close> the number matched by the break pattern, \<open>None\<close> when the pattern
  does not match. The target is the latest-starting pending event of the user whose title
  contains the guess.
\<close>

definition chat_split ::
    "db \<Rightarrow> nat \<Rightarrow> string \<Rightarrow> nat option \<Rightarrow> nat option \<Rightarrow> (error + event list) \<times> db" where
  "chat_split d uid titleGuess mCount mBreak =
     (if titleGuess = [] then (Inl WhichTask, d)
      else
        case findOne (\<lambda>x. userId x = uid \<and> regexI titleGuess (title x) \<and> status x = None)
               startDesc d of
          None \<Rightarrow> (Inl TaskNotFound, d)
        | Some ev \<Rightarrow>
            let n = max 2 (case mCount of None \<Rightarrow> 2 | Some k \<Rightarrow> int k);
                brk = (case mBreak of None \<Rightarrow> 0 | Some k \<Rightarrow> int k);
                s = start ev; e = endt ev
            in
              if usable s e n brk \<le> 0 then (Inl BreaksTooLarge, d)
              else if totalMinutes s e < 180 then (Inl TooShortToSplit, d)
              else
                let plan = make_plan s e n brk;
                    docs = map (\<lambda>(k, sl). childDoc ev (segmentTitle (title ev) k) sl k)
                             (enumerate 0 plan);
                    (children, d') = createAll docs d
                in (Inr children, d'))"

section \<open>Status propagation\<close>

subsection \<open>\<^verbatim>\<open>PATCH /events/:id/status\<close> (server with the chat endpoint)\<close>

text \<open>
  \<^verbatim>\<open>
  event.status = status;
  await event.save();
  if (event.segmentOf) {
    const parentId = event.segmentOf;
    const children = await Event.find({ segmentOf: parentId }).lean();
    const total = children.length;
    const completed = children.filter((c) => c.status === "completed").length;
    const missed = children.filter((c) => c.status === "missed").length;
    if (completed + missed === total) {
      const finalStatus = missed === 0 ? "completed" : "missed";
      parent = await Event.findByIdAndUpdate(parentId, { status: finalStatus }, { new: true });
      parentUpdated = true;
      finalized = true;
    }
  }
  if (!event.segmentOf && status === "completed") {
    const kids = await Event.find({ segmentOf: event._id, status: null }).lean();
    if (kids.length) {
      await Event.updateMany({ segmentOf: event._id, status: null }, { $set: { status: "completed" } });
      finalized = true;
    }
  }\<close>
  The body's \<^verbatim>\<open>status\<close> is any string; \<^verbatim>\<open>["completed", "missed"].includes(status)\<close>
  is \<open>parseStatus\<close>.
\<close>

definition parseStatus :: "string \<Rightarrow> resolved option" where
  "parseStatus raw =
     (if raw = ''completed'' then Some Completed
      else if raw = ''missed'' then Some Missed
      else None)"

record status_reply =
  replyId :: nat
  replyStatus :: resolved
  parentUpdated :: bool
  parent :: "event option"
  finalized :: bool

definition countStatus :: "resolved \<Rightarrow> event list \<Rightarrow> nat" where
  "countStatus s children = length (filter (\<lambda>c. status c = Some s) children)"

definition patch_status :: "db \<Rightarrow> nat \<Rightarrow> string \<Rightarrow> (error + status_reply) \<times> db" where
  "patch_status d i raw =
     (case parseStatus raw of
        None \<Rightarrow> (Inl InvalidStatus, d)
      | Some st \<Rightarrow>
          (case findById d i of
             None \<Rightarrow> (Inl EventNotFound, d)
           | Some event \<Rightarrow>
               let d1 = setStatusById i st d in
               (case segmentOf event of
                  Some parentId \<Rightarrow>
                    let children = filter (\<lambda>c. segmentOf c = Some parentId) d1;
                        total = length children;
                        completed = countStatus Completed children;
                        missed = countStatus Missed children
                    in
                      if completed + missed = total then
                        let finalStatus = (if missed = 0 then Completed else Missed);
                            d2 = setStatusById parentId finalStatus d1
                        in (Inr \<lparr>replyId = i, replyStatus = st, parentUpdated = True,
                                  parent = findById d2 parentId, finalized = True\<rparr>, d2)
                      else
                        (Inr \<lparr>replyId = i, replyStatus = st, parentUpdated = False,
                               parent = None, finalized = False\<rparr>, d1)
                | None \<Rightarrow>
                    if st = Completed
                       \<and> filter (\<lambda>c. segmentOf c = Some (eid event) \<and> status c = None) d1 \<noteq> []
                    then
                      (Inr \<lparr>replyId = i, replyStatus = st, parentUpdated = False,
                             parent = None, finalized = True\<rparr>,
                       updateMany (\<lambda>c. segmentOf c = Some (eid event) \<and> status c = None)
                         Completed d1)
                    else
                      (Inr \<lparr>replyId = i, replyStatus = st, parentUpdated = False,
                             parent = None, finalized = False\<rparr>, d1))))"

subsection \<open>\<^verbatim>\<open>PATCH /events/:id/status\<close> (server without the chat endpoint)\<close>

text \<open>
  \<^verbatim>\<open>
  event.status = status;
  await event.save();
  // If child segment completed -> complete parent when all children completed
  if (event.segmentOf && status === "completed") {
    const parentId = event.segmentOf;
    const [total, completed] = await Promise.all([
      Event.countDocuments({ segmentOf: parentId }),
      Event.countDocuments({ segmentOf: parentId, status: "completed" }),
    ]);
    if (total > 0 && completed === total) {
      parent = await Event.findByIdAndUpdate(parentId, { status: "completed" }, { new: true });
      parentUpdated = !!parent;
    }
  }
  // If parent completed -> cascade "completed" to all children
  if (!event.segmentOf && status === "completed") {
    const children = await Event.find({ segmentOf: event._id }).lean();
    if (children.length > 0) {
      await Event.updateMany(
        { segmentOf: event._id, status: { $ne: "completed" } },
        { $set: { status: "completed" } });
      updatedChildIds = children.map((c) => String(c._id));
    }
  }\<close>
\<close>

text \<open>
  In this server a \<^verbatim>\<open>save\<close> runs the hook of the schema,
  \<^verbatim>\<open>
  eventSchema.post("save", async function (doc) {
    try {
      if (!doc?.isRecurring) return;
      ...\<close>
  which returns at once for a document that is not recurring and otherwise may create the
  next birthday event. The model has the first line of the hook; what follows it is the
  argument \<open>recur\<close>. The documents that \<^verbatim>\<open>POST /events\<close> and the split create are not
  recurring.
\<close>

definition postSave :: "(event \<Rightarrow> db \<Rightarrow> db) \<Rightarrow> event \<Rightarrow> db \<Rightarrow> db" where
  "postSave recur doc d = (if \<not> isRecurring doc then d else recur doc d)"

record status_reply_clean =
  cReplyId :: nat
  cReplyStatus :: resolved
  cParentUpdated :: bool
  cParent :: "event option"
  updatedChildIds :: "nat list"

definition patch_status_clean ::
    "(event \<Rightarrow> db \<Rightarrow> db) \<Rightarrow> db \<Rightarrow> nat \<Rightarrow> string
       \<Rightarrow> (error + status_reply_clean) \<times> db" where
  "patch_status_clean recur d i raw =
     (case parseStatus raw of
        None \<Rightarrow> (Inl InvalidStatus, d)
      | Some st \<Rightarrow>
          (case findById d i of
             None \<Rightarrow> (Inl EventNotFound, d)
           | Some event \<Rightarrow>
               let d1 = postSave recur (event\<lparr>status := Some st\<rparr>) (setStatusById i st d) in
               (case segmentOf event of
                  Some parentId \<Rightarrow>
                    if st = Completed then
                      let total = length (filter (\<lambda>c. segmentOf c = Some parentId) d1);
                          completed =
                            length (filter (\<lambda>c. segmentOf c = Some parentId
                                                 \<and> status c = Some Completed) d1)
                      in
                        if total > 0 \<and> completed = total then
                          let d2 = setStatusById parentId Completed d1 in
                          (Inr \<lparr>cReplyId = i, cReplyStatus = st,
                                 cParentUpdated = (findById d2 parentId \<noteq> None),
                                 cParent = findById d2 parentId, updatedChildIds = []\<rparr>, d2)
                        else
                          (Inr \<lparr>cReplyId = i, cReplyStatus = st, cParentUpdated = False,
                                 cParent = None, updatedChildIds = []\<rparr>, d1)
                    else
                      (Inr \<lparr>cReplyId = i, cReplyStatus = st, cParentUpdated = False,
                             cParent = None, updatedChildIds = []\<rparr>, d1)
                | None \<Rightarrow>
                    let children = filter (\<lambda>c. segmentOf c = Some (eid event)) d1 in
                    if st = Completed \<and> children \<noteq> [] then
                      (Inr \<lparr>cReplyId = i, cReplyStatus = st, cParentUpdated = False,
                             cParent = None, updatedChildIds = map eid children\<rparr>,
                       updateMany (\<lambda>c. segmentOf c = Some (eid event)
                                         \<and> status c \<noteq> Some Completed) Completed d1)
                    else
                      (Inr \<lparr>cReplyId = i, cReplyStatus = st, cParentUpdated = False,
                             cParent = None, updatedChildIds = []\<rparr>, d1))))"

section \<open>Conflict detection\<close>

subsection \<open>\<^verbatim>\<open>POST /events\<close>\<close>

text \<open>
  The body of the request. A date field is absent, not a date (\<^verbatim>\<open>asDate\<close> gives
  \<^verbatim>\<open>null\<close>) or an instant. The server with the chat endpoint looks for an exact
  duplicate, and only when \<^verbatim>\<open>allowDouble\<close> is not set:
  \<^verbatim>\<open>
  if (!allowDouble) {
    const conflict = await Event.findOne({ userId: baseId(userId), start: s, end: e }).lean();
    if (conflict) return res.status(409).json({ error: "Exact duplicate detected", conflict, exact: true });
  }\<close>
  The server without the chat endpoint looks for an overlap:
  \<^verbatim>\<open>
  const conflict = await Event.findOne({
    userId: baseId(userId), start: { $lt: e }, end: { $gt: s } }).lean();
  if (conflict && !allowDouble) return res.status(409).json({ error: "Conflict detected", conflict });\<close>
\<close>

datatype raw_date = Absent | NotADate | At int

record event_body =
  bTitle :: string
  bStart :: raw_date
  bEnd :: raw_date
  bImportance :: "level option"
  bUrgency :: "level option"
  bUserId :: "nat option"
  bDifficulty :: "difficulty option"
  allowDouble :: bool

definition asDate :: "raw_date \<Rightarrow> int option" where
  "asDate r = (case r of At t \<Rightarrow> Some t | _ \<Rightarrow> None)"

definition newDoc ::
    "string \<Rightarrow> int \<Rightarrow> int \<Rightarrow> level \<Rightarrow> level \<Rightarrow> difficulty \<Rightarrow> nat \<Rightarrow> event" where
  "newDoc t s e imp urg dif uid =
     \<lparr>eid = 0, title = t, start = s, endt = e, importance = imp, urgency = urg,
      difficulty = dif, userId = uid, status = None, isRecurring = False,
      segmentOf = None, segmentIndex = None\<rparr>"

definition exactConflict :: "db \<Rightarrow> nat \<Rightarrow> int \<Rightarrow> int \<Rightarrow> event option" where
  "exactConflict d uid s e = find (\<lambda>c. userId c = uid \<and> start c = s \<and> endt c = e) d"

definition overlapConflict :: "db \<Rightarrow> nat \<Rightarrow> int \<Rightarrow> int \<Rightarrow> event option" where
  "overlapConflict d uid s e = find (\<lambda>c. userId c = uid \<and> start c < e \<and> endt c > s) d"

definition exactConflictOther :: "db \<Rightarrow> nat \<Rightarrow> nat \<Rightarrow> int \<Rightarrow> int \<Rightarrow> event option" where
  "exactConflictOther d uid excludeId s e =
     find (\<lambda>c. userId c = uid \<and> eid c \<noteq> excludeId \<and> start c = s \<and> endt c = e) d"

definition post_events :: "db \<Rightarrow> event_body \<Rightarrow> (error + event) \<times> db" where
  "post_events d b =
     (case (bImportance b, bUrgency b, bUserId b) of
        (Some imp, Some urg, Some uid) \<Rightarrow>
          if bTitle b = [] \<or> bStart b = Absent \<or> bEnd b = Absent
          then (Inl AllFieldsRequired, d)
          else
            (case (asDate (bStart b), asDate (bEnd b)) of
               (Some s, Some e) \<Rightarrow>
                 if e \<le> s then (Inl InvalidDateRange, d)
                 else
                   (case (if \<not> allowDouble b then exactConflict d uid s e else None) of
                      Some c \<Rightarrow> (Inl (Conflict c []), d)
                    | None \<Rightarrow>
                        let dif = (case bDifficulty b of None \<Rightarrow> Medium | Some x \<Rightarrow> x);
                            (ev, d') = create (newDoc (bTitle b) s e imp urg dif uid) d
                        in (Inr ev, d'))
             | _ \<Rightarrow> (Inl InvalidDateRange, d))
      | _ \<Rightarrow> (Inl AllFieldsRequired, d))"

definition post_events_clean :: "db \<Rightarrow> event_body \<Rightarrow> (error + event) \<times> db" where
  "post_events_clean d b =
     (case (bImportance b, bUrgency b, bUserId b) of
        (Some imp, Some urg, Some uid) \<Rightarrow>
          if bTitle b = [] \<or> bStart b = Absent \<or> bEnd b = Absent
          then (Inl AllFieldsRequired, d)
          else
            (case (asDate (bStart b), asDate (bEnd b)) of
               (Some s, Some e) \<Rightarrow>
                 if e \<le> s then (Inl InvalidDateRange, d)
                 else
                   (case (case overlapConflict d uid s e of
                            Some c \<Rightarrow> if \<not> allowDouble b then Some c else None
                          | None \<Rightarrow> None) of
                      Some c \<Rightarrow> (Inl (Conflict c []), d)
                    | None \<Rightarrow>
                        let dif = (case bDifficulty b of None \<Rightarrow> Medium | Some x \<Rightarrow> x);
                            (ev, d') = create (newDoc (bTitle b) s e imp urg dif uid) d
                        in (Inr ev, d'))
             | _ \<Rightarrow> (Inl InvalidDateRange, d))
      | _ \<Rightarrow> (Inl AllFieldsRequired, d))"

subsection \<open>The \<^verbatim>\<open>ADD_TASK\<close> and \<^verbatim>\<open>EDIT_TASK\<close> branches of \<^verbatim>\<open>POST /chat\<close>\<close>

text \<open>
  The text of the command is parsed before the model starts: \<open>tr\<close> is the result of
  \<^verbatim>\<open>parseTimeRange\<close> (the two instants, or \<open>None\<close>), the title is
  \<^verbatim>\<open>guessTitle(text)\<close> and the three attributes are those of the \<^verbatim>\<open>extract\<close>
  functions. In an edit the day of the range defaults to the day of the target event, so
  the parsed range is a function \<open>trOf\<close> of the target. On a conflict the reply carries
  \<^verbatim>\<open>buildSuggestions([conflict], Math.max(1, tr.end.diff(tr.start, "minute")))\<close>.
\<close>

definition conflictReply :: "int \<Rightarrow> event \<Rightarrow> int \<Rightarrow> int \<Rightarrow> error" where
  "conflictReply now c s e = Conflict c (buildSuggestions now [c] (max 1 ((e - s) div MINUTE)))"

definition chat_add ::
    "db \<Rightarrow> int \<Rightarrow> nat \<Rightarrow> (int \<times> int) option \<Rightarrow> string \<Rightarrow> level \<Rightarrow> level \<Rightarrow> difficulty
       \<Rightarrow> (error + event) \<times> db" where
  "chat_add d now uid tr t imp urg dif =
     (case tr of
        None \<Rightarrow> (Inl NoTimeRange, d)
      | Some (s, e) \<Rightarrow>
          if \<not> e > s then (Inl InvalidDateRange, d)
          else if \<not> s > now then (Inl StartsInPast, d)
          else
            (case exactConflict d uid s e of
               Some c \<Rightarrow> (Inl (conflictReply now c s e), d)
             | None \<Rightarrow> let (ev, d') = create (newDoc t s e imp urg dif uid) d in (Inr ev, d')))"

definition chat_edit ::
    "db \<Rightarrow> int \<Rightarrow> nat \<Rightarrow> string \<Rightarrow> (event \<Rightarrow> (int \<times> int) option) \<Rightarrow> level \<Rightarrow> level
       \<Rightarrow> difficulty \<Rightarrow> (error + event) \<times> db" where
  "chat_edit d now uid titleGuess trOf imp urg dif =
     (if titleGuess = [] then (Inl WhichTask, d)
      else
        case findOne (\<lambda>x. userId x = uid \<and> regexI titleGuess (title x) \<and> status x = None)
               startDesc d of
          None \<Rightarrow> (Inl TaskNotFound, d)
        | Some ev \<Rightarrow>
            (case trOf ev of
               None \<Rightarrow> (Inl NoTimeRange, d)
             | Some (s, e) \<Rightarrow>
                 (case exactConflictOther d uid (eid ev) s e of
                    Some c \<Rightarrow> (Inl (conflictReply now c s e), d)
                  | None \<Rightarrow>
                      let ev' = ev\<lparr>start := s, endt := e, urgency := urg, importance := imp,
                                     difficulty := dif\<rparr>
                      in (Inr ev', map (\<lambda>x. if eid x = eid ev then ev' else x) d))))"

section \<open>The mark branch of \<^verbatim>\<open>POST /chat\<close>\<close>

text \<open>
  The text of the command is parsed before the model starts: \<open>desired\<close> is the
  normalised status word, \<open>segNum\<close> the number of the segment pattern and
  \<open>titleGuess\<close> the guessed title. The parent is looked up in three steps: the
  latest-starting event of the user without \<^verbatim>\<open>segmentOf\<close> whose title contains the
  guess; the same with every token of the guess; the parent of the latest-starting child
  whose title contains the guess.
\<close>

definition resolveParent :: "db \<Rightarrow> nat \<Rightarrow> string \<Rightarrow> event option" where
  "resolveParent d uid titleGuess =
     (case findOne (\<lambda>x. userId x = uid \<and> segmentOf x = None \<and> regexI titleGuess (title x))
             startDesc d of
        Some p \<Rightarrow> Some p
      | None \<Rightarrow>
          (case (if tokens titleGuess \<noteq> [] then
                   findOne (\<lambda>x. userId x = uid \<and> segmentOf x = None
                                \<and> list_all (\<lambda>t. regexI t (title x)) (tokens titleGuess))
                     startDesc d
                 else None) of
             Some p \<Rightarrow> Some p
           | None \<Rightarrow>
               (case findOne (\<lambda>x. userId x = uid \<and> regexI titleGuess (title x)
                                   \<and> segmentOf x \<noteq> None) startDesc d of
                  None \<Rightarrow> None
                | Some child \<Rightarrow>
                    (case segmentOf child of None \<Rightarrow> None | Some pid \<Rightarrow> findById d pid))))"

record mark_reply =
  markedId :: nat
  parentFinal :: "resolved option"

text \<open>
  Marking one segment (\<^verbatim>\<open>MARK_SEGMENT\<close>). The source has the same steps twice, for
  the child found by its \<^verbatim>\<open>segmentIndex\<close> and for the child picked by position;
  \<open>markChild\<close> is these steps for the child that was picked:
  \<^verbatim>\<open>
  if (desiredStatus === "completed") {
    const childEnd = dayjs(child.end).tz(TZ);
    if (childEnd.isAfter(nowPH)) return res.json({ ... "(still in the future)" });
  }
  child.status = desiredStatus;
  await child.save();
  const siblings = await Event.find({ segmentOf: parent._id }).lean();
  const total = siblings.length;
  const completedCnt = siblings.filter((c) => c.status === "completed").length;
  const missedCnt = siblings.filter((c) => c.status === "missed").length;
  if (completedCnt + missedCnt === total) {
    const finalStatus = missedCnt === 0 ? "completed" : "missed";
    await Event.findByIdAndUpdate(parent._id, { status: finalStatus });
  }\<close>
\<close>

definition markChild ::
    "db \<Rightarrow> int \<Rightarrow> resolved \<Rightarrow> event \<Rightarrow> event \<Rightarrow> (error + mark_reply) \<times> db" where
  "markChild d now desired parentEv child =
     (if desired = Completed \<and> endt child > now then (Inl StillInFuture, d)
      else
        let d1 = setStatusById (eid child) desired d;
            siblings = filter (\<lambda>c. segmentOf c = Some (eid parentEv)) d1;
            total = length siblings;
            completedCnt = countStatus Completed siblings;
            missedCnt = countStatus Missed siblings
        in
          if completedCnt + missedCnt = total then
            let finalStatus = (if missedCnt = 0 then Completed else Missed)
            in (Inr \<lparr>markedId = eid child, parentFinal = Some finalStatus\<rparr>,
                setStatusById (eid parentEv) finalStatus d1)
          else (Inr \<lparr>markedId = eid child, parentFinal = None\<rparr>, d1))"

text \<open>
  The segment a \<^verbatim>\<open>MARK_SEGMENT\<close> command addresses: the child of the parent with the
  given \<^verbatim>\<open>segmentIndex\<close> (the earliest-starting one), and otherwise the child at that
  position among the children ordered by index and start.
\<close>

definition pickSegment :: "db \<Rightarrow> event \<Rightarrow> nat \<Rightarrow> error + event" where
  "pickSegment d parentEv segIndex =
     (case findOne (\<lambda>c. segmentOf c = Some (eid parentEv) \<and> segmentIndex c = Some segIndex
                         \<and> userId c = userId parentEv) startAsc d of
        Some child \<Rightarrow> Inr child
      | None \<Rightarrow>
          let children =
                sortBy indexStartAsc (filter (\<lambda>c. segmentOf c = Some (eid parentEv)) d)
          in
            if children = [] then Inl NoSegments
            else if segIndex \<ge> length children then Inl SegmentNotFound
            else Inr (children ! segIndex))"

definition chat_mark_segment ::
    "db \<Rightarrow> int \<Rightarrow> nat \<Rightarrow> resolved \<Rightarrow> nat \<Rightarrow> string \<Rightarrow> (error + mark_reply) \<times> db" where
  "chat_mark_segment d now uid desired segNum titleGuess =
     (let segIndex = segNum - 1 in
      case resolveParent d uid titleGuess of
        None \<Rightarrow> (Inl TaskNotFound, d)
      | Some parentEv \<Rightarrow>
          (case pickSegment d parentEv segIndex of
             Inl err \<Rightarrow> (Inl err, d)
           | Inr child \<Rightarrow> markChild d now desired parentEv child))"

text \<open>
  Marking a whole task (\<^verbatim>\<open>MARK\<close>):
  \<^verbatim>\<open>
  const kids = await Event.find({ segmentOf: parent._id }).sort({ segmentIndex: 1, start: 1 }).lean();
  if (desiredStatus === "completed") {
    const futureKids = kids.filter((k) => dayjs(k.end).tz(TZ).isAfter(nowPH));
    if (futureKids.length) return res.json({ ... "still in the future" ... });
    if (kids.length) {
      await Event.updateMany({ segmentOf: parent._id }, { $set: { status: "completed" } });
    } else {
      const parentEnd = dayjs(parent.end).tz(TZ);
      if (parentEnd.isAfter(nowPH)) return res.json({ ... "(still in the future)" });
    }
  } else if (desiredStatus === "missed") {
    if (kids.length) {
      await Event.updateMany({ segmentOf: parent._id, status: null }, { $set: { status: "missed" } });
    }
  }
  parent.status = desiredStatus;
  await parent.save();\<close>
\<close>

definition chat_mark ::
    "db \<Rightarrow> int \<Rightarrow> nat \<Rightarrow> resolved \<Rightarrow> string \<Rightarrow> (error + mark_reply) \<times> db" where
  "chat_mark d now uid desired titleGuess =
     (if titleGuess = [] then (Inl NotHandled, d)
      else
        case resolveParent d uid titleGuess of
          None \<Rightarrow> (Inl TaskNotFound, d)
        | Some parentEv \<Rightarrow>
            let kids = sortBy indexStartAsc (filter (\<lambda>c. segmentOf c = Some (eid parentEv)) d);
                reply = Inr \<lparr>markedId = eid parentEv, parentFinal = Some desired\<rparr>
            in
              (case desired of
                 Completed \<Rightarrow>
                   if filter (\<lambda>k. endt k > now) kids \<noteq> [] then (Inl StillInFuture, d)
                   else if kids \<noteq> [] then
                     (reply, setStatusById (eid parentEv) Completed
                               (updateMany (\<lambda>c. segmentOf c = Some (eid parentEv)) Completed d))
                   else if endt parentEv > now then (Inl StillInFuture, d)
                   else (reply, setStatusById (eid parentEv) Completed d)
               | Missed \<Rightarrow>
                   if kids \<noteq> [] then
                     (reply, setStatusById (eid parentEv) Missed
                               (updateMany (\<lambda>c. segmentOf c = Some (eid parentEv) \<and> status c = None)
                                  Missed d))
                   else (reply, setStatusById (eid parentEv) Missed d)))"

section \<open>Month and day phrases\<close>

text \<open>
  \<^verbatim>\<open>findMonthDay\<close> of the chat handler works on calendar dates of the operating
  timezone, modelled by their fields: the year, the month from 0 and the day of the
  month. \<open>today\<close> stands for \<^verbatim>\<open>dayjs().tz(TZ)\<close>. The regular expression is matched
  before the model starts: a match gives the month word, the one or two digits of the
  day and, when the phrase has \<^verbatim>\<open>", yyyy"\<close>, the four digits of the year.
  \<^verbatim>\<open>
  const monKey = m[1].toLowerCase();
  const day = parseInt(m[2], 10);
  const year = m[3] ? parseInt(m[3], 10) : dayjs().tz(TZ).year();
  const monIdx = monthMapZero[monKey] ?? monthMapZero[monKey.slice(0, 3)];
  if (typeof monIdx !== "number") return null;
  let d = dayjs.tz({ year, month: monIdx, date: day, hour: 0, ... }, TZ);
  if (!d.isValid()) return null;
  if (!m[3] && d.isBefore(dayjs().tz(TZ), "day")) d = d.add(1, "year");
  return d.startOf("day");\<close>
  A dayjs value is a date or the invalid date, which \<^verbatim>\<open>isValid\<close> tells apart.
  \<^verbatim>\<open>isBefore(_, "day")\<close> compares calendar
  dates, and \<^verbatim>\<open>add(1, "year")\<close> keeps the month and the day, the day cut to the length
  of the month in the new year.
\<close>

record ymd =
  year :: int
  month :: nat
  day :: nat

datatype dayjs_value = InvalidDate | ValidDate ymd

definition isLeapYear :: "int \<Rightarrow> bool" where
  "isLeapYear y = (y mod 4 = 0 \<and> (y mod 100 \<noteq> 0 \<or> y mod 400 = 0))"

definition daysInMonth :: "int \<Rightarrow> nat \<Rightarrow> nat" where
  "daysInMonth y m =
     (if m = 1 then (if isLeapYear y then 29 else 28)
      else if m = 3 \<or> m = 5 \<or> m = 8 \<or> m = 10 then 30
      else 31)"

definition isBeforeDay :: "ymd \<Rightarrow> ymd \<Rightarrow> bool" where
  "isBeforeDay a b =
     (year a < year b
      \<or> (year a = year b \<and> (month a < month b \<or> (month a = month b \<and> day a < day b))))"

definition addYear :: "ymd \<Rightarrow> ymd" where
  "addYear a =
     \<lparr>year = year a + 1, month = month a,
      day = min (day a) (daysInMonth (year a + 1) (month a))\<rparr>"

definition monthMapZero :: "string \<Rightarrow> nat option" where
  "monthMapZero =
     map_of
       [(''jan'', 0), (''january'', 0), (''feb'', 1), (''february'', 1), (''mar'', 2),
        (''march'', 2), (''apr'', 3), (''april'', 3), (''may'', 4), (''jun'', 5),
        (''june'', 5), (''jul'', 6), (''july'', 6), (''aug'', 7), (''august'', 7),
        (''sep'', 8), (''sept'', 8), (''september'', 8), (''oct'', 9), (''october'', 9),
        (''nov'', 10), (''november'', 10), (''dec'', 11), (''december'', 11)]"

record month_day_match =
  monthWord :: string
  dayDigits :: nat
  yearDigits :: "nat option"

text \<open>
  The date is built by \<^verbatim>\<open>dayjs.tz\<close> from a plain object of fields. The file loads two
  plugins of dayjs and no other:
  \<^verbatim>\<open>
  dayjs.extend(utc);
  dayjs.extend(timezone);\<close>
  The timezone plugin reads an input that is not a string as \<^verbatim>\<open>dayjs(input).tz(TZ)\<close>,
  and dayjs reads an object of fields only with its \<^verbatim>\<open>objectSupport\<close> plugin: without it
  the object goes to \<^verbatim>\<open>new Date(input)\<close>, which is the invalid date whatever the fields
  hold. \<^verbatim>\<open>dayjsTzOfFields\<close> is this call, with the year, the month and the day of the
  object.
\<close>

definition dayjsTzOfFields :: "int \<Rightarrow> nat \<Rightarrow> nat \<Rightarrow> dayjs_value" where
  "dayjsTzOfFields y m d = InvalidDate"

definition findMonthDay :: "ymd \<Rightarrow> month_day_match option \<Rightarrow> ymd option" where
  "findMonthDay today m =
     (case m of
        None \<Rightarrow> None
      | Some mt \<Rightarrow>
          let monKey = map lowerChar (monthWord mt);
              y = (case yearDigits mt of Some k \<Rightarrow> int k | None \<Rightarrow> year today)
          in
            (case (case monthMapZero monKey of
                     Some k \<Rightarrow> Some k
                   | None \<Rightarrow> monthMapZero (take 3 monKey)) of
               None \<Rightarrow> None
             | Some monIdx \<Rightarrow>
                 (case dayjsTzOfFields y monIdx (dayDigits mt) of
                    InvalidDate \<Rightarrow> None
                  | ValidDate d \<Rightarrow>
                      Some (if yearDigits mt = None \<and> isBeforeDay d today
                            then addYear d else d))))"

text \<open>
  The day of a new task in the add branch of \<^verbatim>\<open>POST /chat\<close>; \<open>rel\<close> is the result of
  \<^verbatim>\<open>findRelativeDay\<close> on the same text.
  \<^verbatim>\<open>
  const dateDay = findMonthDay(text) || findRelativeDay(text)
                  || dayjs().tz(TZ).startOf("day");\<close>
\<close>

definition addDateDay :: "ymd \<Rightarrow> month_day_match option \<Rightarrow> ymd option \<Rightarrow> ymd" where
  "addDateDay today m rel =
     (case findMonthDay today m of
        Some d \<Rightarrow> d
      | None \<Rightarrow> (case rel of Some d \<Rightarrow> d | None \<Rightarrow> today))"

section \<open>Properties and example data\<close>

text \<open>
  Conservation of a split of the interval from \<open>s\<close> to \<open>e\<close> into \<open>n\<close> segments with
  breaks of \<open>brk\<close> minutes: there are \<open>n\<close> segments, their lengths and the
  \<open>n - 1\<close> breaks add up to \<open>totalMinutes\<close> (counted in milliseconds), and the last
  segment ends at the end of the parent less what the parent has beyond whole minutes.
\<close>

definition conserved :: "int \<Rightarrow> int \<Rightarrow> int \<Rightarrow> int \<Rightarrow> event list \<Rightarrow> bool" where
  "conserved s e n brk children =
     (int (length children) = n
      \<and> sum_list (map (\<lambda>c. endt c - start c) children) + (n - 1) * brk * 60000
          = totalMinutes s e * 60000
      \<and> endt (last children) = e - (e - s) mod 60000)"

text \<open>
  The children of a parent, and what the finalisation of a parent depends on.
\<close>

definition allResolved :: "event list \<Rightarrow> bool" where
  "allResolved kids = list_all (\<lambda>c. status c \<noteq> None) kids"

definition noneMissed :: "event list \<Rightarrow> bool" where
  "noneMissed kids = list_all (\<lambda>c. status c \<noteq> Some Missed) kids"

definition allCompleted :: "event list \<Rightarrow> bool" where
  "allCompleted kids = list_all (\<lambda>c. status c = Some Completed) kids"

definition childrenOf :: "nat \<Rightarrow> db \<Rightarrow> event list" where
  "childrenOf pid d = filter (\<lambda>c. segmentOf c = Some pid) d"


definition segmentsOf :: "(error + event list) \<times> db \<Rightarrow> event list" where
  "segmentsOf r = (case fst r of Inl _ \<Rightarrow> [] | Inr cs \<Rightarrow> cs)"

text \<open>
  Example data: a task of the user 7 that starts on 12 November 2025 at 10:00 in Manila
  and ends at the given instant, a request body for the split endpoint, and the task
  with its three segments of 60 minutes (breaks of 10 minutes) in given states.
\<close>

definition studyTask :: "int \<Rightarrow> event" where
  "studyTask e =
     \<lparr>eid = 10, title = ''Study react'', start = 1762912800000, endt = e,
      importance = Low, urgency = High, difficulty = Medium, userId = 7, status = None,
      isRecurring = False, segmentOf = None, segmentIndex = None\<rparr>"

definition splitBody :: "int \<Rightarrow> int \<Rightarrow> split_body" where
  "splitBody n b = \<lparr>count = Some n, breakMinutes = Some b, titlePrefix = None, titles = []\<rparr>"

definition segmentDoc :: "nat \<Rightarrow> resolved option \<Rightarrow> event" where
  "segmentDoc k st =
     \<lparr>eid = 11 + k, title = segmentTitle ''Study react'' k,
      start = 1762912800000 + int k * 4200000, endt = 1762916400000 + int k * 4200000,
      importance = Low, urgency = High, difficulty = Medium, userId = 7, status = st,
      isRecurring = False, segmentOf = Some 10, segmentIndex = Some k\<rparr>"

definition family :: "resolved option \<Rightarrow> resolved option \<Rightarrow> resolved option \<Rightarrow> db" where
  "family a b c = [studyTask 1762924800000, segmentDoc 0 a, segmentDoc 1 b, segmentDoc 2 c]"

text \<open>
  A stored meeting of one hour of the user 7, and the body of a request of the same user
  for a new event.
\<close>

definition meeting :: "int \<Rightarrow> event" where
  "meeting s =
     \<lparr>eid = 20, title = ''Meeting'', start = s, endt = s + 60 * MINUTE,
      importance = High, urgency = Low, difficulty = Medium, userId = 7, status = None,
      isRecurring = False, segmentOf = None, segmentIndex = None\<rparr>"

definition gymBody :: "int \<Rightarrow> int \<Rightarrow> event_body" where
  "gymBody s e =
     \<lparr>bTitle = ''Gym'', bStart = At s, bEnd = At e, bImportance = Some Low,
      bUrgency = Some Low, bUserId = Some 7, bDifficulty = None, allowDouble = False\<rparr>"

text \<open>
  The invariant of the two-level hierarchy fails in a collection when some document
  refers, by \<open>segmentOf\<close>, to a document that is itself a segment.
\<close>

definition hasGrandchild :: "db \<Rightarrow> bool" where
  "hasGrandchild d =
     list_ex (\<lambda>c. list_ex (\<lambda>p. segmentOf c = Some (eid p) \<and> segmentOf p \<noteq> None) d) d"




section \<open>Proofs: segmentation\<close>

lemma plan_loop_step:
  "i < n \<Longrightarrow> plan_loop n brk b i r c =
     \<lparr>startMs = c, endMs = c + (b + (if r > 0 then 1 else 0)) * 60000\<rparr>
       # plan_loop n brk b (i + 1) (if r > 0 then r - 1 else r)
           (if i < n - 1 then c + (b + (if r > 0 then 1 else 0)) * 60000 + brk * 60000
            else c + (b + (if r > 0 then 1 else 0)) * 60000)"
  by (subst plan_loop.simps) (simp add: Let_def)

lemma plan_loop_done: "\<not> i < n \<Longrightarrow> plan_loop n brk b i r c = []"
  by (subst plan_loop.simps) simp

lemma plan_loop_length_aux:
  "nat (n - i) = k \<Longrightarrow> length (plan_loop n brk b i r c) = k"
proof (induction k arbitrary: i r c)
  case 0
  then show ?case by (simp add: plan_loop_done)
next
  case (Suc k)
  then have lt: "i < n" and k: "nat (n - (i + 1)) = k" by auto
  show ?case by (simp add: plan_loop_step [OF lt] Suc.IH [OF k])
qed

lemma plan_loop_sum_aux:
  "nat (n - i) = k \<Longrightarrow> 0 \<le> r \<Longrightarrow>
   sum_list (map durMs (plan_loop n brk b i r c)) = (int k * b + min r (int k)) * 60000"
proof (induction k arbitrary: i r c)
  case 0
  then show ?case by (simp add: plan_loop_done)
next
  case (Suc k)
  then have lt: "i < n" and k: "nat (n - (i + 1)) = k" by auto
  have r': "0 \<le> (if r > 0 then r - 1 else r)" using Suc.prems by simp
  show ?case using Suc.prems
    by (simp only: plan_loop_step [OF lt] list.map sum_list.Cons Suc.IH [OF k r'])
       (auto simp: durMs_def algebra_simps min_def)
qed

lemma plan_loop_last_aux:
  "nat (n - i) = Suc k \<Longrightarrow> 0 \<le> r \<Longrightarrow>
   endMs (last (plan_loop n brk b i r c)) =
     c + (int (Suc k) * b + min r (int (Suc k))) * 60000 + int k * brk * 60000"
proof (induction k arbitrary: i r c)
  case 0
  then have lt: "i < n" and k: "\<not> i + 1 < n" by auto
  show ?case using 0 k
    by (simp add: plan_loop_step [OF lt] plan_loop_done min_def)
next
  case (Suc k)
  then have lt: "i < n" and lt': "i < n - 1" and k: "nat (n - (i + 1)) = Suc k" by auto
  have r': "0 \<le> (if r > 0 then r - 1 else r)" using Suc.prems by simp
  have ne: "\<And>r c. plan_loop n brk b (i + 1) r c \<noteq> []"
    using plan_loop_length_aux [OF k] by (metis length_0_conv nat.distinct(1))
  show ?case using Suc.prems lt'
    by (simp only: plan_loop_step [OF lt] last_ConsR [OF ne] if_True Suc.IH [OF k r'])
       (auto simp: algebra_simps min_def)
qed

lemma make_plan_length: "1 \<le> n \<Longrightarrow> length (make_plan s e n brk) = nat n"
  by (simp add: make_plan_def Let_def plan_loop_length_aux)

lemma make_plan_sum:
  assumes "1 \<le> n"
  shows "sum_list (map durMs (make_plan s e n brk)) = usable s e n brk * 60000"
proof -
  let ?u = "usable s e n brk"
  have r: "0 \<le> ?u mod n" "?u mod n < n" using assms by simp_all
  have k: "nat (n - 0) = nat n" by simp
  have "sum_list (map durMs (make_plan s e n brk))
          = (int (nat n) * (?u div n) + min (?u mod n) (int (nat n))) * 60000"
    unfolding make_plan_def Let_def by (rule plan_loop_sum_aux [OF k r(1)])
  also have "int (nat n) = n" using assms by simp
  also have "min (?u mod n) n = ?u mod n" using r by simp
  also have "n * (?u div n) + ?u mod n = ?u" by simp
  finally show ?thesis .
qed

lemma make_plan_last:
  assumes "1 \<le> n"
  shows "endMs (last (make_plan s e n brk)) = e - (e - s) mod 60000"
proof -
  let ?u = "usable s e n brk"
  have r: "0 \<le> ?u mod n" "?u mod n < n" using assms by simp_all
  have k: "nat (n - 0) = Suc (nat (n - 1))" using assms by simp
  have "endMs (last (make_plan s e n brk))
          = s + (int (Suc (nat (n - 1))) * (?u div n) + min (?u mod n) (int (Suc (nat (n - 1))))) * 60000
              + int (nat (n - 1)) * brk * 60000"
    unfolding make_plan_def Let_def by (rule plan_loop_last_aux [OF k r(1)])
  also have "int (Suc (nat (n - 1))) = n" using assms by simp
  also have "int (nat (n - 1)) = n - 1" using assms by simp
  also have "min (?u mod n) n = ?u mod n" using r by simp
  also have "n * (?u div n) + ?u mod n = ?u" by simp
  finally have "endMs (last (make_plan s e n brk)) = s + ((e - s) div 60000) * 60000"
    by (simp add: usable_def totalMinutes_def algebra_simps)
  also have "\<dots> = e - (e - s) mod 60000"
    using div_mult_mod_eq [of "e - s" 60000] by linarith
  finally show ?thesis .
qed

lemma createAll_map:
  assumes "\<And>x k. f (x\<lparr>eid := k\<rparr>) = f x"
  shows "map f (fst (createAll docs d)) = map f docs"
  by (induction docs arbitrary: d) (simp_all add: create_def Let_def split_beta assms)

lemma createAll_length: "length (fst (createAll docs d)) = length docs"
  by (induction docs arbitrary: d) (simp_all add: create_def Let_def split_beta)

lemma childDocs_dur:
  "map (\<lambda>c. endt c - start c) (map (\<lambda>(k, sl). childDoc p (t k) sl k) (enumerate j plan))
     = map durMs plan"
  by (induction plan arbitrary: j) (simp_all add: childDoc_def durMs_def)

lemma childDocs_endt:
  "map endt (map (\<lambda>(k, sl). childDoc p (t k) sl k) (enumerate j plan)) = map endMs plan"
  by (induction plan arbitrary: j) (simp_all add: childDoc_def)

lemma created_plan_conserved:
  assumes n: "2 \<le> n"
  shows "conserved s e n brk
           (fst (createAll (map (\<lambda>(k, sl). childDoc p (t k) sl k) (enumerate 0 (make_plan s e n brk))) d))"
proof -
  let ?plan = "make_plan s e n brk"
  let ?docs = "map (\<lambda>(k, sl). childDoc p (t k) sl k) (enumerate 0 ?plan)"
  let ?cs = "fst (createAll ?docs d)"
  have n1: "1 \<le> n" using n by simp
  have len: "length ?cs = nat n"
    by (simp add: createAll_length make_plan_length [OF n1])
  then have ne: "?cs \<noteq> []" "?plan \<noteq> []" using n make_plan_length [OF n1, of s e brk] by auto
  have "map (\<lambda>c. endt c - start c) ?cs = map (\<lambda>c. endt c - start c) ?docs"
    by (rule createAll_map) simp
  then have dur: "map (\<lambda>c. endt c - start c) ?cs = map durMs ?plan"
    by (simp only: childDocs_dur)
  have "map endt ?cs = map endt ?docs"
    by (rule createAll_map) simp
  then have en: "map endt ?cs = map endMs ?plan"
    by (simp only: childDocs_endt)
  have "endt (last ?cs) = last (map endt ?cs)" using ne by (simp add: last_map)
  also have "\<dots> = endMs (last ?plan)" using ne by (simp add: en last_map)
  finally have l: "endt (last ?cs) = e - (e - s) mod 60000"
    by (simp add: make_plan_last [OF n1])
  show ?thesis
    unfolding conserved_def using len n l
    by (simp add: dur make_plan_sum [OF n1] usable_def algebra_simps)
qed

lemma post_split_conserved:
  assumes "findById d i = Some p" and "start p < endt p"
    and "count body = Some n" and "2 \<le> n" and "breakMinutes body = Some b" and "0 \<le> b"
    and "0 < usable (start p) (endt p) n b"
  shows "\<exists>children d'. post_split d i body = (Inr children, d')
           \<and> conserved (start p) (endt p) n b children"
proof -
  have n: "max 1 (orZero (count body)) = n" and b: "max 0 (orZero (breakMinutes body)) = b"
    using assms by (simp_all add: orZero_def)
  show ?thesis
    using assms(1,2,4,7) created_plan_conserved [OF assms(4)]
    by (simp add: post_split_def Let_def n b split_beta)
qed

lemma chat_split_conserved:
  assumes "titleGuess \<noteq> []"
    and "findOne (\<lambda>x. userId x = uid \<and> regexI titleGuess (title x) \<and> status x = None) startDesc d
           = Some ev"
    and "mCount = Some n" and "2 \<le> n"
    and "0 < usable (start ev) (endt ev) (int n) (case mBreak of None \<Rightarrow> 0 | Some k \<Rightarrow> int k)"
    and "180 \<le> totalMinutes (start ev) (endt ev)"
  shows "\<exists>children d'. chat_split d uid titleGuess mCount mBreak = (Inr children, d')
           \<and> conserved (start ev) (endt ev) (int n) (case mBreak of None \<Rightarrow> 0 | Some k \<Rightarrow> int k) children"
proof -
  have n: "max 2 (case mCount of None \<Rightarrow> 2 | Some k \<Rightarrow> int k) = int n" "2 \<le> int n"
    using assms by simp_all
  show ?thesis
    using assms(1,2,5,6) created_plan_conserved [OF n(2)]
    by (simp add: chat_split_def Let_def n split_beta)
qed

text \<open>
  C1, as amended. For every valid split request, through the split endpoint (a stored
  parent with \<open>end > start\<close>, a count \<open>n \<ge> 2\<close>, a break \<open>b \<ge> 0\<close>, usable minutes positive)
  and through the chat command (a resolved pending target of at least 180 minutes, a
  count \<open>k \<ge> 2\<close>, usable minutes positive), the request succeeds with exactly \<open>n\<close>
  segments, the sum of the segment lengths plus the \<open>n - 1\<close> breaks equals
  \<open>totalMinutes\<close> exactly, and the last segment ends at the parent's end minus
  \<open>(end - start) mod 1 minute\<close>: at the parent's end exactly when the parent lasts a whole
  number of minutes, and less than a minute before it otherwise.
\<close>

theorem split_conservation:
  "(findById d i = Some p \<and> start p < endt p \<and> count body = Some n \<and> 2 \<le> n
      \<and> breakMinutes body = Some b \<and> 0 \<le> b \<and> 0 < usable (start p) (endt p) n b
    \<longrightarrow> (\<exists>children d'. post_split d i body = (Inr children, d')
           \<and> conserved (start p) (endt p) n b children))
   \<and> (titleGuess \<noteq> []
      \<and> findOne (\<lambda>x. userId x = uid \<and> regexI titleGuess (title x) \<and> status x = None)
            startDesc d = Some ev
      \<and> mCount = Some k \<and> 2 \<le> k
      \<and> 0 < usable (start ev) (endt ev) (int k) (case mBreak of None \<Rightarrow> 0 | Some j \<Rightarrow> int j)
      \<and> 180 \<le> totalMinutes (start ev) (endt ev)
    \<longrightarrow> (\<exists>children d'. chat_split d uid titleGuess mCount mBreak = (Inr children, d')
           \<and> conserved (start ev) (endt ev) (int k)
                 (case mBreak of None \<Rightarrow> 0 | Some j \<Rightarrow> int j) children))"
  using post_split_conserved [of d i p body n b]
        chat_split_conserved [of titleGuess uid d ev mCount k mBreak]
  by blast

lemma findOne_study:
  "findOne (\<lambda>x. userId x = 7 \<and> regexI ''Study react'' (title x) \<and> status x = None) startDesc
     [studyTask 1762924800000] = Some (studyTask 1762924800000)"
  by (simp add: findOne_def sortBy_def studyTask_def regexI_def lowerChar_def)

theorem split_conservation_witness:
  "(\<exists>children d'. post_split [studyTask 1762924800000] 10 (splitBody 3 10) = (Inr children, d')
       \<and> conserved 1762912800000 1762924800000 3 10 children)
   \<and> (\<exists>children d'. chat_split [studyTask 1762924800000] 7 ''Study react'' (Some 3) (Some 10)
                          = (Inr children, d')
       \<and> conserved 1762912800000 1762924800000 3 10 children)"
proof -
  let ?p = "studyTask 1762924800000"
  have h1: "findById [?p] 10 = Some ?p \<and> start ?p < endt ?p \<and> count (splitBody 3 10) = Some 3
      \<and> (2::int) \<le> 3 \<and> breakMinutes (splitBody 3 10) = Some 10 \<and> (0::int) \<le> 10
      \<and> 0 < usable (start ?p) (endt ?p) 3 10"
    by (simp add: findById_def studyTask_def splitBody_def usable_def totalMinutes_def)
  have h2: "''Study react'' \<noteq> []
      \<and> findOne (\<lambda>x. userId x = 7 \<and> regexI ''Study react'' (title x) \<and> status x = None)
            startDesc [?p] = Some ?p
      \<and> Some (3::nat) = Some 3 \<and> (2::nat) \<le> 3
      \<and> 0 < usable (start ?p) (endt ?p) (int 3) (case Some (10::nat) of None \<Rightarrow> 0 | Some j \<Rightarrow> int j)
      \<and> 180 \<le> totalMinutes (start ?p) (endt ?p)"
    by (simp add: findOne_study) (simp add: studyTask_def usable_def totalMinutes_def)
  show ?thesis
    using h1 h2
      split_conservation [of "[?p]" 10 ?p "splitBody 3 10" 3 10 "''Study react''" 7 ?p "Some 3" 3 "Some 10"]
    by (simp add: studyTask_def)
qed

text \<open>
  C1 as stated fails for a parent that does not last a whole number of minutes: a task of
  200 minutes and 30 seconds split into 3 with breaks of 10 minutes, a valid request on
  both paths, gets a last segment that ends 30 seconds before the parent does.
\<close>

theorem split_final_end_counterexample:
  "start (studyTask 1762924830000) < endt (studyTask 1762924830000)
   \<and> 0 < usable (start (studyTask 1762924830000)) (endt (studyTask 1762924830000)) 3 10
   \<and> map endt (segmentsOf (post_split [studyTask 1762924830000] 10 (splitBody 3 10)))
        = [1762916400000, 1762920600000, 1762924800000]
   \<and> map endt (segmentsOf (chat_split [studyTask 1762924830000] 7 ''Study react'' (Some 3) (Some 10)))
        = [1762916400000, 1762920600000, 1762924800000]
   \<and> endt (studyTask 1762924830000) = 1762924830000"
  by (simp add: segmentsOf_def post_split_def chat_split_def findOne_def sortBy_def regexI_def
        lowerChar_def findById_def studyTask_def splitBody_def orZero_def usable_def
        totalMinutes_def make_plan_def plan_loop.simps Let_def childDoc_def create_def newId_def
        split_beta)

section \<open>Proofs: status propagation\<close>

lemma count_partition:
  "countStatus Completed ks + countStatus Missed ks + length (filter (\<lambda>c. status c = None) ks)
     = length ks"
proof (induction ks)
  case Nil
  show ?case by (simp add: countStatus_def)
next
  case (Cons k ks)
  show ?case
  proof (cases "status k")
    case None
    with Cons show ?thesis by (simp add: countStatus_def)
  next
    case (Some r)
    with Cons show ?thesis by (cases r) (simp_all add: countStatus_def)
  qed
qed

lemma counts_total_iff:
  "countStatus Completed ks + countStatus Missed ks = length ks \<longleftrightarrow> allResolved ks"
proof -
  have "allResolved ks \<longleftrightarrow> filter (\<lambda>c. status c = None) ks = []"
    by (simp add: allResolved_def list_all_iff filter_empty_conv)
  then show ?thesis using count_partition [of ks] by auto
qed

lemma missed_zero_iff: "countStatus Missed ks = 0 \<longleftrightarrow> noneMissed ks"
  by (simp add: countStatus_def noneMissed_def list_all_iff filter_empty_conv)

lemma completed_total_iff:
  "length (filter (\<lambda>c. segmentOf c = Some pid \<and> status c = Some Completed) d)
     = length (filter (\<lambda>c. segmentOf c = Some pid) d) \<longleftrightarrow> allCompleted (childrenOf pid d)"
proof (induction d)
  case Nil
  show ?case by (simp add: allCompleted_def childrenOf_def)
next
  case (Cons x d)
  have le: "length (filter (\<lambda>c. segmentOf c = Some pid \<and> status c = Some Completed) d)
     \<le> length (filter (\<lambda>c. segmentOf c = Some pid) d)"
    by (induction d) auto
  show ?case using Cons le by (auto simp: allCompleted_def childrenOf_def)
qed

lemma findById_Some: "findById d i = Some ev \<Longrightarrow> ev \<in> set d \<and> eid ev = i"
  by (auto simp: findById_def find_Some_iff)

lemma marked_child_present:
  assumes "findById d i = Some ev" and "segmentOf ev = Some pid"
  shows "childrenOf pid (setStatusById i st d) \<noteq> []"
proof -
  from assms(1) have "ev \<in> set d" "eid ev = i" by (simp_all add: findById_Some)
  then have "ev\<lparr>status := Some st\<rparr> \<in> set (setStatusById i st d)"
    by (force simp: setStatusById_def updateMany_def)
  then have "ev\<lparr>status := Some st\<rparr> \<in> set (childrenOf pid (setStatusById i st d))"
    using assms(2) by (simp add: childrenOf_def)
  then show ?thesis by auto
qed

lemma patch_status_child:
  assumes "parseStatus raw = Some st" and "findById d i = Some ev" and "segmentOf ev = Some pid"
  shows "snd (patch_status d i raw) =
           (if allResolved (childrenOf pid (setStatusById i st d))
            then setStatusById pid
                   (if noneMissed (childrenOf pid (setStatusById i st d)) then Completed else Missed)
                   (setStatusById i st d)
            else setStatusById i st d)"
  using assms
  by (simp add: patch_status_def Let_def counts_total_iff missed_zero_iff childrenOf_def)

lemma patch_status_clean_child:
  assumes "parseStatus raw = Some st" and "findById d i = Some ev" and "segmentOf ev = Some pid"
    and "\<not> isRecurring ev"
  shows "snd (patch_status_clean recur d i raw) =
           (if st = Completed \<and> allCompleted (childrenOf pid (setStatusById i st d))
            then setStatusById pid Completed (setStatusById i st d)
            else setStatusById i st d)"
  using assms marked_child_present [OF assms(2,3), of st]
  by (auto simp add: patch_status_clean_def postSave_def Let_def completed_total_iff
        childrenOf_def)

lemma updateMany_mem:
  assumes "x \<in> set (updateMany P s d)"
  obtains y where "y \<in> set d" and "x = (if P y then y\<lparr>status := Some s\<rparr> else y)"
proof -
  from assms have "x \<in> (\<lambda>e. if P e then e\<lparr>status := Some s\<rparr> else e) ` set d"
    by (simp only: updateMany_def set_map)
  then show ?thesis by (rule imageE) (rule that)
qed

lemma setStatusById_sets:
  "\<forall>x\<in>set (setStatusById i s d). eid x = i \<longrightarrow> status x = Some s"
proof (intro ballI impI)
  fix x assume x: "x \<in> set (setStatusById i s d)" and i: "eid x = i"
  from x have "x \<in> set (updateMany (\<lambda>e. eid e = i) s d)" by (simp only: setStatusById_def)
  then obtain y where y: "x = (if eid y = i then y\<lparr>status := Some s\<rparr> else y)"
    by (rule updateMany_mem)
  show "status x = Some s"
  proof (cases "eid y = i")
    case True
    with y show ?thesis by simp
  next
    case False
    with y i show ?thesis by simp
  qed
qed

lemma patch_status_child_reply:
  assumes "parseStatus raw = Some st" and "findById d i = Some ev" and "segmentOf ev = Some pid"
  shows "\<exists>r. fst (patch_status d i raw) = Inr r
           \<and> finalized r = allResolved (childrenOf pid (setStatusById i st d))
           \<and> parentUpdated r = allResolved (childrenOf pid (setStatusById i st d))"
  using assms
  by (simp add: patch_status_def Let_def counts_total_iff missed_zero_iff childrenOf_def)

text \<open>
  C2, as amended. A status update marks a child segment (an event found by its id, with
  \<open>segmentOf\<close> set). In the server with the chat endpoint: if every child of the same
  parent then has a resolved status, the parent's status is set within the same request,
  to completed when no child is missed and to missed otherwise, and the reply says
  \<open>finalized\<close>; if some child is still pending, only the child is written. In the server
  without the chat endpoint (and for a child that is not a recurring event, so that the
  hook of the schema does nothing) the parent is written only when the child is marked
  completed and every child of the parent is then completed, and it is set to completed;
  marking a child missed never writes the parent.
\<close>

theorem child_finalization:
  assumes "parseStatus raw = Some st" and "findById d i = Some ev" and "segmentOf ev = Some pid"
  shows "(allResolved (childrenOf pid (setStatusById i st d)) \<longrightarrow>
            (\<exists>r. fst (patch_status d i raw) = Inr r \<and> finalized r \<and> parentUpdated r)
            \<and> snd (patch_status d i raw)
                = setStatusById pid
                    (if noneMissed (childrenOf pid (setStatusById i st d)) then Completed
                     else Missed)
                    (setStatusById i st d)
            \<and> (\<forall>x\<in>set (snd (patch_status d i raw)). eid x = pid \<longrightarrow>
                  status x = Some (if noneMissed (childrenOf pid (setStatusById i st d))
                                   then Completed else Missed)))
       \<and> (\<not> allResolved (childrenOf pid (setStatusById i st d)) \<longrightarrow>
            (\<exists>r. fst (patch_status d i raw) = Inr r \<and> \<not> finalized r \<and> \<not> parentUpdated r)
            \<and> snd (patch_status d i raw) = setStatusById i st d)
       \<and> (\<not> isRecurring ev \<longrightarrow>
            snd (patch_status_clean recur d i raw)
              = (if st = Completed \<and> allCompleted (childrenOf pid (setStatusById i st d))
                 then setStatusById pid Completed (setStatusById i st d)
                 else setStatusById i st d))"
proof -
  let ?d1 = "setStatusById i st d"
  let ?kids = "childrenOf pid ?d1"
  let ?final = "if noneMissed ?kids then Completed else Missed"
  obtain r where r: "fst (patch_status d i raw) = Inr r" "finalized r = allResolved ?kids"
      "parentUpdated r = allResolved ?kids"
    using patch_status_child_reply [OF assms] by blast
  have s: "snd (patch_status d i raw)
             = (if allResolved ?kids then setStatusById pid ?final ?d1 else ?d1)"
    by (rule patch_status_child [OF assms])
  have a: "allResolved ?kids \<longrightarrow>
            (\<exists>r. fst (patch_status d i raw) = Inr r \<and> finalized r \<and> parentUpdated r)
            \<and> snd (patch_status d i raw) = setStatusById pid ?final ?d1
            \<and> (\<forall>x\<in>set (snd (patch_status d i raw)). eid x = pid \<longrightarrow> status x = Some ?final)"
  proof
    assume all: "allResolved ?kids"
    then have e: "snd (patch_status d i raw) = setStatusById pid ?final ?d1"
      by (simp only: s if_True)
    have "\<forall>x\<in>set (setStatusById pid ?final ?d1). eid x = pid \<longrightarrow> status x = Some ?final"
      by (rule setStatusById_sets)
    then show "(\<exists>r. fst (patch_status d i raw) = Inr r \<and> finalized r \<and> parentUpdated r)
            \<and> snd (patch_status d i raw) = setStatusById pid ?final ?d1
            \<and> (\<forall>x\<in>set (snd (patch_status d i raw)). eid x = pid \<longrightarrow> status x = Some ?final)"
      using r all e by simp
  qed
  have b: "\<not> allResolved ?kids \<longrightarrow>
            (\<exists>r. fst (patch_status d i raw) = Inr r \<and> \<not> finalized r \<and> \<not> parentUpdated r)
            \<and> snd (patch_status d i raw) = ?d1"
    using r s by simp
  have c: "\<not> isRecurring ev \<longrightarrow>
            snd (patch_status_clean recur d i raw)
              = (if st = Completed \<and> allCompleted ?kids
                 then setStatusById pid Completed ?d1
                 else ?d1)"
    using patch_status_clean_child [OF assms] by blast
  show ?thesis by (rule conjI [OF a conjI [OF b c]])
qed

lemma family_lookup:
  "findById (family a b c) 13 = Some (segmentDoc 2 c)"
  "segmentOf (segmentDoc 2 c) = Some 10"
  by (simp_all add: findById_def family_def studyTask_def segmentDoc_def)

lemma family_marked:
  "setStatusById 13 st (family a b c) = family a b (Some st)"
  by (simp add: setStatusById_def updateMany_def family_def studyTask_def segmentDoc_def)

lemma family_children:
  "childrenOf 10 (family a b c) = [segmentDoc 0 a, segmentDoc 1 b, segmentDoc 2 c]"
  by (simp add: childrenOf_def family_def studyTask_def segmentDoc_def)

lemma family_parent_set:
  "map status (setStatusById 10 st (family a b c)) = [Some st, a, b, c]"
  by (simp add: setStatusById_def updateMany_def family_def studyTask_def segmentDoc_def)

theorem child_finalization_witness:
  "parseStatus ''missed'' = Some Missed
   \<and> findById (family (Some Completed) (Some Completed) None) 13 = Some (segmentDoc 2 None)
   \<and> segmentOf (segmentDoc 2 None) = Some 10
   \<and> map status (snd (patch_status (family (Some Completed) (Some Completed) None) 13 ''missed''))
        = [Some Missed, Some Completed, Some Completed, Some Missed]
   \<and> map status (snd (patch_status (family (Some Completed) None None) 13 ''missed''))
        = [None, Some Completed, None, Some Missed]"
proof -
  have p: "parseStatus ''missed'' = Some Missed" by (simp add: parseStatus_def)
  have r1: "allResolved (childrenOf 10 (setStatusById 13 Missed (family (Some Completed) (Some Completed) None)))"
    by (simp add: family_marked family_children allResolved_def segmentDoc_def)
  have r2: "\<not> allResolved (childrenOf 10 (setStatusById 13 Missed (family (Some Completed) None None)))"
    by (simp add: family_marked family_children allResolved_def segmentDoc_def)
  have m: "\<not> noneMissed (childrenOf 10 (setStatusById 13 Missed (family (Some Completed) (Some Completed) None)))"
    by (simp add: family_marked family_children noneMissed_def segmentDoc_def)
  show ?thesis
    using child_finalization [OF p family_lookup, of "Some Completed" "Some Completed" None]
          child_finalization [OF p family_lookup, of "Some Completed" None None]
          r1 r2 m
    by (simp add: p family_lookup family_marked family_parent_set)
       (simp add: family_def studyTask_def segmentDoc_def)
qed

text \<open>
  C2 as stated fails in the server without the chat endpoint: with two children completed,
  marking the last pending child missed resolves every child, and the parent (the first
  document) stays pending.
\<close>

theorem child_finalization_counterexample:
  "allResolved (childrenOf 10 (family (Some Completed) (Some Completed) (Some Missed)))
   \<and> map status (snd (patch_status_clean (\<lambda>doc d. d)
                          (family (Some Completed) (Some Completed) None) 13 ''missed''))
        = [None, Some Completed, Some Completed, Some Missed]"
  by (simp add: family_children allResolved_def patch_status_clean_def postSave_def parseStatus_def
        family_lookup family_marked Let_def)
     (simp add: family_def studyTask_def segmentDoc_def)

text \<open>
  The three cases of the finalisation in the server with the chat endpoint: the last child
  completed after two completed, the last child missed after two completed, and a child
  missed while another is pending.
\<close>

lemma finalization_examples:
  "map status (snd (patch_status (family (Some Completed) (Some Completed) None) 13 ''completed''))
     = [Some Completed, Some Completed, Some Completed, Some Completed]"
  "map status (snd (patch_status (family (Some Completed) (Some Completed) None) 13 ''missed''))
     = [Some Missed, Some Completed, Some Completed, Some Missed]"
  "map status (snd (patch_status (family (Some Completed) None None) 13 ''missed''))
     = [None, Some Completed, None, Some Missed]"
  by (simp_all add: patch_status_def parseStatus_def family_lookup family_marked Let_def
        family_children [unfolded childrenOf_def] countStatus_def family_parent_set)
     (simp_all add: segmentDoc_def family_def studyTask_def)

section \<open>Proofs: conflict detection\<close>

lemma find_SomeD: "find P xs = Some x \<Longrightarrow> x \<in> set xs \<and> P x"
  by (induction xs) (auto split: if_splits)

lemma find_hit: "x \<in> set xs \<Longrightarrow> P x \<Longrightarrow> \<exists>y. find P xs = Some y"
  by (induction xs) auto

lemma asDate_Some: "asDate r = Some t \<longleftrightarrow> r = At t"
  by (cases r) (simp_all add: asDate_def)

lemma post_events_conflict:
  assumes "fst (post_events d b) = Inl (Conflict c sg)"
  shows "\<exists>uid s e. bUserId b = Some uid \<and> bStart b = At s \<and> bEnd b = At e
           \<and> exactConflict d uid s e = Some c"
  using assms unfolding post_events_def
  by (simp add: Let_def split_beta asDate_Some split: option.splits if_splits)

lemma post_events_clean_conflict:
  assumes "fst (post_events_clean d b) = Inl (Conflict c sg)"
  shows "\<exists>uid s e. bUserId b = Some uid \<and> bStart b = At s \<and> bEnd b = At e
           \<and> overlapConflict d uid s e = Some c"
  using assms unfolding post_events_clean_def
  by (simp add: Let_def split_beta asDate_Some split: option.splits if_splits)

lemma chat_add_conflict:
  assumes "fst (chat_add d now uid tr t imp urg dif) = Inl (Conflict c sg)"
  shows "\<exists>s e. tr = Some (s, e) \<and> exactConflict d uid s e = Some c"
  using assms unfolding chat_add_def conflictReply_def
  by (simp add: Let_def split: option.splits if_splits prod.splits)

lemma chat_edit_conflict:
  assumes "fst (chat_edit d now uid tg trOf imp urg dif) = Inl (Conflict c sg)"
  shows "\<exists>ev s e. findOne (\<lambda>x. userId x = uid \<and> regexI tg (title x) \<and> status x = None)
                     startDesc d = Some ev
           \<and> trOf ev = Some (s, e) \<and> exactConflictOther d uid (eid ev) s e = Some c"
  using assms unfolding chat_edit_def conflictReply_def
  by (simp add: Let_def split: option.splits if_splits prod.splits)

lemma chat_add_reports:
  assumes "x \<in> set d" and "userId x = uid" and "start x = s" and "endt x = e"
    and "s < e" and "now < s"
  shows "\<exists>c sg. chat_add d now uid (Some (s, e)) t imp urg dif = (Inl (Conflict c sg), d)"
proof -
  obtain c where "exactConflict d uid s e = Some c"
    unfolding exactConflict_def using find_hit [OF assms(1), of "\<lambda>c. userId c = uid \<and> start c = s \<and> endt c = e"] assms(2-4)
    by auto
  then show ?thesis using assms(5,6) by (simp add: chat_add_def conflictReply_def)
qed

lemma chat_add_creates:
  assumes "\<not> (\<exists>x\<in>set d. userId x = uid \<and> start x = s \<and> endt x = e)"
    and "s < e" and "now < s"
  shows "\<exists>ev. fst (chat_add d now uid (Some (s, e)) t imp urg dif) = Inr ev"
proof -
  have "exactConflict d uid s e = None"
    unfolding exactConflict_def using assms(1) by (simp add: find_None_iff)
  then show ?thesis using assms(2,3) by (simp add: chat_add_def split_beta)
qed

text \<open>
  C3, as amended. In the server with the chat endpoint, the conflict check of an add
  (\<^verbatim>\<open>POST /events\<close> without \<^verbatim>\<open>allowDouble\<close>, and the chat add) and of a chat edit
  reports only a stored event of the same owner whose start and end both equal the
  candidate's, and in an edit never the edited event itself; the chat add does report a
  conflict whenever such an event is stored. In the server without the chat endpoint,
  \<^verbatim>\<open>POST /events\<close> reports a stored event of the same owner that overlaps the candidate
  (it starts before the candidate's end and ends after the candidate's start).
\<close>

theorem conflict_exactness:
  "(fst (post_events d b) = Inl (Conflict c sg) \<longrightarrow>
      c \<in> set d \<and> bUserId b = Some (userId c) \<and> bStart b = At (start c) \<and> bEnd b = At (endt c))
   \<and> (fst (chat_add d now uid tr t imp urg dif) = Inl (Conflict c sg) \<longrightarrow>
      c \<in> set d \<and> userId c = uid \<and> tr = Some (start c, endt c))
   \<and> (fst (chat_edit d now uid tg trOf imp urg dif) = Inl (Conflict c sg) \<longrightarrow>
      c \<in> set d \<and> userId c = uid
      \<and> (\<exists>ev. findOne (\<lambda>x. userId x = uid \<and> regexI tg (title x) \<and> status x = None)
                  startDesc d = Some ev
              \<and> eid c \<noteq> eid ev \<and> trOf ev = Some (start c, endt c)))
   \<and> (x \<in> set d \<and> userId x = uid \<and> start x < endt x \<and> now < start x \<longrightarrow>
      (\<exists>c' sg'. chat_add d now uid (Some (start x, endt x)) t imp urg dif
                  = (Inl (Conflict c' sg'), d)))
   \<and> (fst (post_events_clean d b) = Inl (Conflict c sg) \<longrightarrow>
      c \<in> set d \<and> bUserId b = Some (userId c)
      \<and> (\<exists>s e. bStart b = At s \<and> bEnd b = At e \<and> start c < e \<and> s < endt c))"
proof (intro conjI impI)
  assume "fst (post_events d b) = Inl (Conflict c sg)"
  then obtain uid' s e where "bUserId b = Some uid'" "bStart b = At s" "bEnd b = At e"
      "exactConflict d uid' s e = Some c"
    using post_events_conflict by blast
  then show "c \<in> set d" "bUserId b = Some (userId c)" "bStart b = At (start c)"
      "bEnd b = At (endt c)"
    by (auto simp: exactConflict_def dest: find_SomeD)
next
  assume "fst (chat_add d now uid tr t imp urg dif) = Inl (Conflict c sg)"
  then obtain s e where "tr = Some (s, e)" "exactConflict d uid s e = Some c"
    using chat_add_conflict by blast
  then show "c \<in> set d" "userId c = uid" "tr = Some (start c, endt c)"
    by (auto simp: exactConflict_def dest: find_SomeD)
next
  assume "fst (chat_edit d now uid tg trOf imp urg dif) = Inl (Conflict c sg)"
  then obtain ev s e where
      ev: "findOne (\<lambda>x. userId x = uid \<and> regexI tg (title x) \<and> status x = None) startDesc d
             = Some ev"
      and tr: "trOf ev = Some (s, e)"
      and c: "exactConflictOther d uid (eid ev) s e = Some c"
    using chat_edit_conflict by blast
  from c have c': "c \<in> set d" "userId c = uid" "eid c \<noteq> eid ev" "start c = s" "endt c = e"
    by (auto simp: exactConflictOther_def dest: find_SomeD)
  then show "c \<in> set d" "userId c = uid" by simp_all
  show "\<exists>ev. findOne (\<lambda>x. userId x = uid \<and> regexI tg (title x) \<and> status x = None)
                  startDesc d = Some ev
              \<and> eid c \<noteq> eid ev \<and> trOf ev = Some (start c, endt c)"
    using ev tr c' by blast
next
  assume "x \<in> set d \<and> userId x = uid \<and> start x < endt x \<and> now < start x"
  then show "\<exists>c' sg'. chat_add d now uid (Some (start x, endt x)) t imp urg dif
                  = (Inl (Conflict c' sg'), d)"
    using chat_add_reports [of x d uid "start x" "endt x" now] by blast
next
  assume "fst (post_events_clean d b) = Inl (Conflict c sg)"
  then obtain uid' s e where b: "bUserId b = Some uid'" "bStart b = At s" "bEnd b = At e"
      and c: "overlapConflict d uid' s e = Some c"
    using post_events_clean_conflict by blast
  from c have c': "c \<in> set d" "userId c = uid'" "start c < e" "s < endt c"
    by (auto simp: overlapConflict_def dest: find_SomeD)
  then show "c \<in> set d" "bUserId b = Some (userId c)" using b by simp_all
  show "\<exists>s e. bStart b = At s \<and> bEnd b = At e \<and> start c < e \<and> s < endt c"
    using b c' by blast
qed

text \<open>
  A candidate from \<open>T\<close> to \<open>T + 60\<close> minutes conflicts with a stored event of the same
  interval, and in the server with the chat endpoint not with one from \<open>T + 1\<close> to
  \<open>T + 61\<close> minutes.
\<close>

lemma conflict_examples:
  "fst (post_events [meeting 1762912800000] (gymBody 1762912800000 1762916400000))
     = Inl (Conflict (meeting 1762912800000) [])"
  "fst (chat_add [meeting 1762912800000] 1762900000000 7 (Some (1762912800000, 1762916400000))
          ''Gym'' Low Low Medium)
     = Inl (Conflict (meeting 1762912800000)
              (buildSuggestions 1762900000000 [meeting 1762912800000] 60))"
  "\<not> isl (fst (post_events [meeting 1762912860000] (gymBody 1762912800000 1762916400000)))"
  "\<not> isl (fst (chat_add [meeting 1762912860000] 1762900000000 7
                   (Some (1762912800000, 1762916400000)) ''Gym'' Low Low Medium))"
  by (simp_all add: post_events_def chat_add_def conflictReply_def exactConflict_def
        gymBody_def asDate_def meeting_def MINUTE_def create_def newId_def Let_def)

lemma edit_example:
  "fst (chat_edit [meeting 1762912800000, studyTask 1762924800000] 1762900000000 7 ''Study react''
          (\<lambda>ev. Some (1762912800000, 1762916400000)) Low Low Medium)
     = Inl (Conflict (meeting 1762912800000)
              (buildSuggestions 1762900000000 [meeting 1762912800000] 60))"
  by (simp add: chat_edit_def findOne_def sortBy_def regexI_def lowerChar_def
        exactConflictOther_def conflictReply_def studyTask_def meeting_def MINUTE_def)

lemma clean_example:
  "fst (post_events_clean [meeting 1762912860000] (gymBody 1762912800000 1762916400000))
     = Inl (Conflict (meeting 1762912860000) [])"
  by (simp add: post_events_clean_def overlapConflict_def gymBody_def asDate_def meeting_def
        MINUTE_def)

theorem conflict_exactness_witness:
  "fst (post_events [meeting 1762912800000] (gymBody 1762912800000 1762916400000))
     = Inl (Conflict (meeting 1762912800000) [])
   \<and> bStart (gymBody 1762912800000 1762916400000) = At (start (meeting 1762912800000))
   \<and> bEnd (gymBody 1762912800000 1762916400000) = At (endt (meeting 1762912800000))
   \<and> fst (chat_add [meeting 1762912800000] 1762900000000 7
             (Some (1762912800000, 1762916400000)) ''Gym'' Low Low Medium)
       = Inl (Conflict (meeting 1762912800000)
                (buildSuggestions 1762900000000 [meeting 1762912800000] 60))
   \<and> fst (chat_edit [meeting 1762912800000, studyTask 1762924800000] 1762900000000 7 ''Study react''
             (\<lambda>ev. Some (1762912800000, 1762916400000)) Low Low Medium)
       = Inl (Conflict (meeting 1762912800000)
                (buildSuggestions 1762900000000 [meeting 1762912800000] 60))
   \<and> fst (post_events_clean [meeting 1762912860000] (gymBody 1762912800000 1762916400000))
       = Inl (Conflict (meeting 1762912860000) [])
   \<and> start (meeting 1762912860000) < 1762916400000
   \<and> 1762912800000 < endt (meeting 1762912860000)"
proof -
  let ?m = "meeting 1762912800000"
  let ?sg = "buildSuggestions 1762900000000 [?m] 60"
  have x: "?m \<in> set [?m] \<and> userId ?m = 7 \<and> start ?m < endt ?m \<and> 1762900000000 < start ?m"
    by (simp add: meeting_def MINUTE_def)
  note t1 = conflict_exactness [of "[?m]" "gymBody 1762912800000 1762916400000" ?m "[]"
      1762900000000 7 "Some (1762912800000, 1762916400000)" "''Gym''" Low Low Medium
      "''Study react''" "\<lambda>ev. Some (1762912800000, 1762916400000)" ?m]
  note t2 = conflict_exactness [of "[?m]" "gymBody 1762912800000 1762916400000" ?m ?sg
      1762900000000 7 "Some (1762912800000, 1762916400000)" "''Gym''" Low Low Medium
      "''Study react''" "\<lambda>ev. Some (1762912800000, 1762916400000)" ?m]
  note t3 = conflict_exactness [of "[?m, studyTask 1762924800000]"
      "gymBody 1762912800000 1762916400000" ?m ?sg
      1762900000000 7 "Some (1762912800000, 1762916400000)" "''Gym''" Low Low Medium
      "''Study react''" "\<lambda>ev. Some (1762912800000, 1762916400000)" ?m]
  note t4 = conflict_exactness [of "[meeting 1762912860000]"
      "gymBody 1762912800000 1762916400000" "meeting 1762912860000" "[]"
      1762900000000 7 "Some (1762912800000, 1762916400000)" "''Gym''" Low Low Medium
      "''Study react''" "\<lambda>ev. Some (1762912800000, 1762916400000)" "meeting 1762912860000"]
  have a: "bStart (gymBody 1762912800000 1762916400000) = At (start ?m)"
      "bEnd (gymBody 1762912800000 1762916400000) = At (endt ?m)"
    using t1 conflict_examples(1) by simp_all
  have b: "start (meeting 1762912860000) < 1762916400000"
      "1762912800000 < endt (meeting 1762912860000)"
    using t4 clean_example by (simp_all add: gymBody_def)
  show ?thesis
    using a b t2 t3 x conflict_examples(1,2) edit_example clean_example by simp
qed

text \<open>
  C3 as stated fails in the server without the chat endpoint: the candidate from \<open>T\<close> to
  \<open>T + 60\<close> minutes is answered with a conflict with the stored event from \<open>T + 1\<close> to
  \<open>T + 61\<close> minutes, which it only overlaps.
\<close>

theorem conflict_exactness_counterexample:
  "fst (post_events_clean [meeting 1762912860000] (gymBody 1762912800000 1762916400000))
     = Inl (Conflict (meeting 1762912860000) [])
   \<and> bStart (gymBody 1762912800000 1762916400000) \<noteq> At (start (meeting 1762912860000))
   \<and> bEnd (gymBody 1762912800000 1762916400000) \<noteq> At (endt (meeting 1762912860000))"
  by (simp add: post_events_clean_def overlapConflict_def gymBody_def asDate_def meeting_def
        MINUTE_def)

section \<open>Proofs: the floor and the targets of a split\<close>

lemma chat_split_floor:
  assumes "findOne (\<lambda>x. userId x = uid \<and> regexI titleGuess (title x) \<and> status x = None)
             startDesc d = Some ev"
    and "totalMinutes (start ev) (endt ev) < 180"
  shows "\<exists>err. chat_split d uid titleGuess mCount mBreak = (Inl err, d)"
  using assms by (simp add: chat_split_def Let_def)

text \<open>
  C4 says that a split of a parent shorter than 180 minutes is rejected and creates no
  segment. The chat command does so (\<open>chat_split_floor\<close>); the split endpoint of the
  same server has no such check: for a parent of 179 minutes, a count of 2 and no break it
  creates two segments of 90 and 89 minutes, where the chat command answers that the task
  is too short.
\<close>

theorem split_endpoint_accepts_179_minutes:
  "totalMinutes (start (studyTask 1762923540000)) (endt (studyTask 1762923540000)) = 179
   \<and> map start (segmentsOf (post_split [studyTask 1762923540000] 10 (splitBody 2 0)))
        = [1762912800000, 1762918200000]
   \<and> map endt (segmentsOf (post_split [studyTask 1762923540000] 10 (splitBody 2 0)))
        = [1762918200000, 1762923540000]
   \<and> chat_split [studyTask 1762923540000] 7 ''Study react'' (Some 2) None
        = (Inl TooShortToSplit, [studyTask 1762923540000])"
  by (simp add: segmentsOf_def post_split_def chat_split_def findOne_def sortBy_def regexI_def
        lowerChar_def findById_def studyTask_def splitBody_def orZero_def usable_def
        totalMinutes_def make_plan_def plan_loop.simps Let_def childDoc_def create_def newId_def
        split_beta)

text \<open>
  A task of 400 minutes split into 2 through the chat command: the collection afterwards.
\<close>

lemma once_split:
  "snd (chat_split [studyTask 1762936800000] 7 ''Study react'' (Some 2) None)
     = [studyTask 1762936800000,
        (childDoc (studyTask 1762936800000) (segmentTitle ''Study react'' 0)
           \<lparr>startMs = 1762912800000, endMs = 1762924800000\<rparr> 0)\<lparr>eid := 11\<rparr>,
        (childDoc (studyTask 1762936800000) (segmentTitle ''Study react'' 1)
           \<lparr>startMs = 1762924800000, endMs = 1762936800000\<rparr> 1)\<lparr>eid := 12\<rparr>]"
  by (simp add: chat_split_def findOne_def sortBy_def regexI_def
        lowerChar_def studyTask_def usable_def
        totalMinutes_def make_plan_def plan_loop.simps Let_def childDoc_def create_def newId_def
        split_beta)

lemma chat_split_twice:
  "map segmentOf (snd (chat_split [studyTask 1762936800000] 7 ''Study react'' (Some 2) None))
     = [None, Some 10, Some 10]
   \<and> map eid (snd (chat_split [studyTask 1762936800000] 7 ''Study react'' (Some 2) None))
     = [10, 11, 12]
   \<and> map segmentOf
        (segmentsOf (chat_split
           (snd (chat_split [studyTask 1762936800000] 7 ''Study react'' (Some 2) None))
           7 ''Study react'' (Some 2) None))
     = [Some 12, Some 12]"
  apply (simp only: once_split)
  apply (simp add: segmentsOf_def chat_split_def findOne_def sortBy_def regexI_def startDesc_def
        lowerChar_def studyTask_def usable_def segmentTitle_def decimal.simps digit_def em_dash_def
        totalMinutes_def make_plan_def plan_loop.simps Let_def childDoc_def create_def newId_def
        split_beta)
  done

lemma endpoint_split_of_a_segment:
  "map segmentOf (family None None None) = [None, Some 10, Some 10, Some 10]
   \<and> map eid (family None None None) = [10, 11, 12, 13]
   \<and> \<not> hasGrandchild (family None None None)
   \<and> map segmentOf (segmentsOf (post_split (family None None None) 11 (splitBody 2 0)))
        = [Some 11, Some 11]
   \<and> hasGrandchild (snd (post_split (family None None None) 11 (splitBody 2 0)))"
  by (simp add: hasGrandchild_def segmentsOf_def post_split_def
        findById_def family_def segmentDoc_def studyTask_def splitBody_def orZero_def usable_def
        totalMinutes_def make_plan_def plan_loop.simps Let_def childDoc_def create_def newId_def
        split_beta)

text \<open>
  C8 says that no child segment ever acquires children, whatever the target of a split.
  The chat command resolves its target among all pending events of the user, segments
  included, and takes the one that starts last: after a task of 400 minutes has been split
  into 2, the same command given a second time splits the second segment (the document
  12, whose \<open>segmentOf\<close> is the task 10) and creates two documents whose \<open>segmentOf\<close>
  is 12. The split endpoint takes any stored event as the parent: applied to the first
  segment (the document 11) of a task with three segments, it creates two documents whose
  \<open>segmentOf\<close> is 11, and the collection, which had no segment of a segment before, has
  one afterwards.
\<close>

theorem split_of_a_segment:
  "map segmentOf (snd (chat_split [studyTask 1762936800000] 7 ''Study react'' (Some 2) None))
     = [None, Some 10, Some 10]
   \<and> map eid (snd (chat_split [studyTask 1762936800000] 7 ''Study react'' (Some 2) None))
     = [10, 11, 12]
   \<and> map segmentOf
        (segmentsOf (chat_split
           (snd (chat_split [studyTask 1762936800000] 7 ''Study react'' (Some 2) None))
           7 ''Study react'' (Some 2) None))
     = [Some 12, Some 12]
   \<and> map segmentOf (family None None None) = [None, Some 10, Some 10, Some 10]
   \<and> map eid (family None None None) = [10, 11, 12, 13]
   \<and> \<not> hasGrandchild (family None None None)
   \<and> map segmentOf (segmentsOf (post_split (family None None None) 11 (splitBody 2 0)))
        = [Some 11, Some 11]
   \<and> hasGrandchild (snd (post_split (family None None None) 11 (splitBody 2 0)))"
  using chat_split_twice endpoint_split_of_a_segment by (simp only: simp_thms)

section \<open>Proofs: suggestions\<close>

lemma fold_latest:
  "fold (\<lambda>c acc. if endt c > acc then endt c else acc) cs a = Max (insert a (endt ` set cs))"
proof (induction cs arbitrary: a)
  case Nil
  show ?case by simp
next
  case (Cons c cs)
  have "Max (insert (if a < endt c then endt c else a) (endt ` set cs))
          = Max (insert a (insert (endt c) (endt ` set cs)))"
  proof (cases "a < endt c")
    case True
    have "Max (insert a (insert (endt c) (endt ` set cs)))
            = max a (Max (insert (endt c) (endt ` set cs)))"
      by (rule Max_insert) simp_all
    also have "\<dots> = Max (insert (endt c) (endt ` set cs))"
      using True by (simp add: max_def Max_ge_iff)
    finally show ?thesis using True by simp
  next
    case False
    have "insert a (insert (endt c) (endt ` set cs)) = insert (endt c) (insert a (endt ` set cs))"
      by auto
    moreover have "Max (insert (endt c) (insert a (endt ` set cs)))
            = max (endt c) (Max (insert a (endt ` set cs)))"
      by (rule Max_insert) simp_all
    moreover have "\<dots> = Max (insert a (endt ` set cs))"
      using False by (simp add: max_def Max_ge_iff)
    ultimately show ?thesis using False by simp
  qed
  then show ?case by (simp add: Cons.IH)
qed

lemma latestEnd_Max:
  assumes "conflicts \<noteq> []"
  shows "latestEnd conflicts = Max (endt ` set conflicts)"
proof -
  obtain c cs where c: "conflicts = c # cs" using assms by (cases conflicts) auto
  have "insert (endt c) (endt ` set (c # cs)) = endt ` set (c # cs)" by auto
  then show ?thesis by (simp add: latestEnd_def c fold_latest del: fold_simps)
qed

lemma localMs_startOfDay: "localMs (startOfDay t) = localDay t * DAY"
proof -
  have "localMs (startOfDay t) = localMs t - localMs t mod DAY"
    by (simp add: startOfDay_def localMs_def localTimeOfDay_def)
  also have "\<dots> = localMs t div DAY * DAY"
    by (simp add: minus_mod_eq_div_mult)
  finally show ?thesis by (simp add: localDay_def)
qed

lemma setters_on_midnight:
  "setSecond 0 (setMinute 0 (setHour 8 (startOfDay t))) = startOfDay t + 8 * HOUR"
proof -
  let ?m = "startOfDay t"
  have tod: "localTimeOfDay ?m = 0"
    by (simp add: localTimeOfDay_def localMs_startOfDay)
  have h: "setHour 8 ?m = ?m + 8 * HOUR" by (simp add: setHour_def tod)
  have l: "localMs (?m + 8 * HOUR) = (localDay t * 24 + 8) * HOUR"
    using localMs_startOfDay [of t] by (simp add: localMs_def DAY_def HOUR_def)
  have "localMs (?m + 8 * HOUR) mod HOUR = 0" by (simp only: l mod_mult_self2_is_0)
  then have m: "setMinute 0 (?m + 8 * HOUR) = ?m + 8 * HOUR" by (simp add: setMinute_def)
  have "localMs (?m + 8 * HOUR) = (localDay t * 1440 + 480) * MINUTE"
    by (simp add: l) (simp add: HOUR_def MINUTE_def)
  then have "localMs (?m + 8 * HOUR) mod MINUTE = 0" by (simp only: mod_mult_self2_is_0)
  then have s: "setSecond 0 (?m + 8 * HOUR) = ?m + 8 * HOUR" by (simp add: setSecond_def)
  show ?thesis by (simp only: h m s)
qed

lemma eight_on_the_day:
  "localDay (startOfDay t + 8 * HOUR) = localDay t"
  "localTimeOfDay (startOfDay t + 8 * HOUR) = 8 * HOUR"
proof -
  have l: "localMs (startOfDay t + 8 * HOUR) = localDay t * DAY + 8 * HOUR"
    using localMs_startOfDay [of t] by (simp add: localMs_def)
  show "localDay (startOfDay t + 8 * HOUR) = localDay t"
    unfolding localDay_def [of "startOfDay t + 8 * HOUR"] l by (simp add: DAY_def HOUR_def)
  show "localTimeOfDay (startOfDay t + 8 * HOUR) = 8 * HOUR"
    unfolding localTimeOfDay_def l by (simp add: DAY_def HOUR_def)
qed

lemma next_day: "localDay (now + 1 * DAY) = localDay now + 1"
  by (simp add: localDay_def localMs_def DAY_def add.commute add.left_commute)

text \<open>
  C5. For every non-empty list of conflicting events and every desired duration of
  \<open>D \<ge> 1\<close> minutes, the suggestion generator returns exactly three suggestions, in this
  order: the first starts at the later of the latest conflict end and now and lasts \<open>D\<close>
  minutes; the second starts exactly one hour after the start of the first and lasts
  \<open>D\<close> minutes; the third starts at 08:00 local time on the calendar day after today and
  lasts \<open>D\<close> minutes.
\<close>

theorem suggestion_order:
  assumes "conflicts \<noteq> []" and "1 \<le> D"
  shows "\<exists>s1 s2 s3. buildSuggestions now conflicts D = [s1, s2, s3]
           \<and> sugStart s1 = max (Max (endt ` set conflicts)) now
           \<and> sugEnd s1 = sugStart s1 + D * MINUTE
           \<and> sugStart s2 = sugStart s1 + HOUR
           \<and> sugEnd s2 = sugStart s2 + D * MINUTE
           \<and> localDay (sugStart s3) = localDay now + 1
           \<and> localTimeOfDay (sugStart s3) = 8 * HOUR
           \<and> sugEnd s3 = sugStart s3 + D * MINUTE"
proof -
  have d: "max 1 D = D" using assms(2) by simp
  have b: "(if latestEnd conflicts > now then latestEnd conflicts else now)
             = max (Max (endt ` set conflicts)) now"
    by (simp add: latestEnd_Max [OF assms(1)] max_def)
  have day: "localDay (startOfDay (now + 1 * DAY) + 8 * HOUR) = localDay now + 1"
    by (simp only: eight_on_the_day(1) next_day)
  show ?thesis
    unfolding buildSuggestions_def Let_def d b setters_on_midnight
    using assms(1) day eight_on_the_day(2) [of "now + 1 * DAY"]
    by simp
qed

theorem suggestion_order_witness:
  "[meeting 1762912800000] \<noteq> [] \<and> (1::int) \<le> 60
   \<and> map sugStart (buildSuggestions 1762900000000 [meeting 1762912800000] 60)
       = [1762916400000, 1762920000000, 1762992000000]
   \<and> map sugEnd (buildSuggestions 1762900000000 [meeting 1762912800000] 60)
       = [1762920000000, 1762923600000, 1762995600000]
   \<and> localDay (1762992000000) = localDay 1762900000000 + 1
   \<and> localTimeOfDay (1762992000000) = 8 * HOUR"
proof -
  have h: "[meeting 1762912800000] \<noteq> []" "(1::int) \<le> 60" by simp_all
  have e: "buildSuggestions 1762900000000 [meeting 1762912800000] 60
             = [\<lparr>sugStart = 1762916400000, sugEnd = 1762920000000, hint = ''After conflict''\<rparr>,
                \<lparr>sugStart = 1762920000000, sugEnd = 1762923600000, hint = ''+1 hour''\<rparr>,
                \<lparr>sugStart = 1762992000000, sugEnd = 1762995600000,
                   hint = ''Tomorrow 8:00 AM''\<rparr>]"
    by (simp add: buildSuggestions_def latestEnd_def meeting_def setSecond_def setMinute_def
          setHour_def startOfDay_def localTimeOfDay_def localMs_def TZ_offset_def
          MINUTE_def HOUR_def DAY_def)
  show ?thesis
    using suggestion_order [OF h, of 1762900000000]
    by (simp add: e)
qed

section \<open>Proofs: marking\<close>

lemma set_insertBy: "set (insertBy le x xs) = insert x (set xs)"
  by (induction xs) auto

lemma set_sortBy: "set (sortBy le xs) = set xs"
  by (induction xs) (simp_all add: sortBy_def set_insertBy)

lemma sortBy_Nil_iff: "sortBy le xs = [] \<longleftrightarrow> xs = []"
  using set_sortBy [of le xs] by (metis set_empty)

lemma filter_sortBy_Nil_iff: "filter P (sortBy le xs) = [] \<longleftrightarrow> filter P xs = []"
  by (simp add: filter_empty_conv set_sortBy)

lemma updateMany_twice_same:
  "setStatusById pid s (updateMany Q s d)
     = map (\<lambda>x. if eid x = pid then x\<lparr>status := Some s\<rparr>
                 else if Q x then x\<lparr>status := Some s\<rparr> else x) d"
  by (induction d) (simp_all add: setStatusById_def updateMany_def)

lemma map_cong_set: "(\<And>x. x \<in> set d \<Longrightarrow> f x = g x) \<Longrightarrow> map f d = map g d"
  by simp

lemma chat_mark_missed_closed_form:
  assumes "titleGuess \<noteq> []" and "resolveParent d uid titleGuess = Some p"
  shows "chat_mark d now uid Missed titleGuess =
           (Inr \<lparr>markedId = eid p, parentFinal = Some Missed\<rparr>,
            map (\<lambda>x. if eid x = eid p then x\<lparr>status := Some Missed\<rparr>
                      else if segmentOf x = Some (eid p) \<and> status x = None
                           then x\<lparr>status := Some Missed\<rparr>
                      else x) d)"
proof (cases "filter (\<lambda>c. segmentOf c = Some (eid p)) d = []")
  case False
  then show ?thesis
    using assms by (simp add: chat_mark_def Let_def sortBy_Nil_iff updateMany_twice_same)
next
  case True
  then have none: "\<And>x. x \<in> set d \<Longrightarrow> segmentOf x \<noteq> Some (eid p)"
    by (simp add: filter_empty_conv)
  have "setStatusById (eid p) Missed d
          = map (\<lambda>x. if eid x = eid p then x\<lparr>status := Some Missed\<rparr>
                      else if segmentOf x = Some (eid p) \<and> status x = None
                           then x\<lparr>status := Some Missed\<rparr>
                      else x) d"
    unfolding setStatusById_def updateMany_def by (rule map_cong_set) (simp add: none)
  then show ?thesis
    using assms True by (simp add: chat_mark_def Let_def sortBy_Nil_iff)
qed

text \<open>
  C10. In the chat mark path, marking a parent event missed sets the status of every one
  of its children whose status is null to missed, leaves the children that are already
  completed or missed unchanged (and every other document), and sets the parent's own
  status to missed; the end times play no part, the request is accepted whatever
  \<open>now\<close> is.
\<close>

theorem parent_missed_cascade:
  assumes "titleGuess \<noteq> []" and "resolveParent d uid titleGuess = Some p"
  shows "chat_mark d now uid Missed titleGuess =
           (Inr \<lparr>markedId = eid p, parentFinal = Some Missed\<rparr>,
            map (\<lambda>x. if eid x = eid p then x\<lparr>status := Some Missed\<rparr>
                      else if segmentOf x = Some (eid p) \<and> status x = None
                           then x\<lparr>status := Some Missed\<rparr>
                      else x) d)"
  using assms by (rule chat_mark_missed_closed_form)

lemma family_parent:
  "resolveParent (family a b c) 7 ''Study react'' = Some (studyTask 1762924800000)"
  by (simp add: resolveParent_def findOne_def sortBy_def regexI_def lowerChar_def
        family_def studyTask_def segmentDoc_def)

theorem parent_missed_cascade_witness:
  "''Study react'' \<noteq> []
   \<and> resolveParent (family (Some Completed) None (Some Missed)) 7 ''Study react''
       = Some (studyTask 1762924800000)
   \<and> 1762900000000 < endt (studyTask 1762924800000)
   \<and> map status (snd (chat_mark (family (Some Completed) None (Some Missed)) 1762900000000 7
                          Missed ''Study react''))
       = [Some Missed, Some Completed, Some Missed, Some Missed]"
proof -
  have h: "''Study react'' \<noteq> []" by simp
  show ?thesis
    using parent_missed_cascade [OF h family_parent, of "Some Completed" None "Some Missed"
            1762900000000]
    by (simp add: family_parent) (simp add: family_def studyTask_def segmentDoc_def)
qed

lemma markChild_future:
  "now < endt child \<Longrightarrow> markChild d now Completed p child = (Inl StillInFuture, d)"
  by (simp add: markChild_def)

lemma markChild_missed: "\<exists>r. fst (markChild d now Missed p child) = Inr r"
  by (simp add: markChild_def Let_def)

lemma chat_mark_future_kid:
  assumes "titleGuess \<noteq> []" and "resolveParent d uid titleGuess = Some p"
    and "k \<in> set (childrenOf (eid p) d)" and "now < endt k"
  shows "chat_mark d now uid Completed titleGuess = (Inl StillInFuture, d)"
proof -
  have "filter (\<lambda>k. endt k > now) (filter (\<lambda>c. segmentOf c = Some (eid p)) d) \<noteq> []"
    using assms(3,4) by (auto simp: childrenOf_def filter_empty_conv)
  then have "filter (\<lambda>k. endt k > now)
               (sortBy indexStartAsc (filter (\<lambda>c. segmentOf c = Some (eid p)) d)) \<noteq> []"
    by (simp only: filter_sortBy_Nil_iff not_False_eq_True)
  then show ?thesis using assms(1,2) by (simp add: chat_mark_def Let_def)
qed

lemma chat_mark_future_standalone:
  assumes "titleGuess \<noteq> []" and "resolveParent d uid titleGuess = Some p"
    and "childrenOf (eid p) d = []" and "now < endt p"
  shows "chat_mark d now uid Completed titleGuess = (Inl StillInFuture, d)"
  using assms by (simp add: chat_mark_def Let_def childrenOf_def sortBy_def)

lemma patch_status_accepts:
  assumes "findById d i = Some ev" and "parseStatus raw = Some st"
  shows "\<exists>r. fst (patch_status d i raw) = Inr r"
  using assms by (cases "segmentOf ev") (simp_all add: patch_status_def Let_def)

lemma patch_status_clean_accepts:
  assumes "findById d i = Some ev" and "parseStatus raw = Some st"
  shows "\<exists>r. fst (patch_status_clean recur d i raw) = Inr r"
  using assms by (cases "segmentOf ev") (simp_all add: patch_status_clean_def Let_def)

text \<open>
  C6, as amended. Through the chat command, a request to mark a segment completed is
  rejected as still in the future, with no write, whenever the segment's end is strictly
  after the current time; so is a request to mark a task without segments completed whose
  end is strictly after the current time, and a request to mark a task completed one of
  whose segments ends strictly after the current time. A request to mark missed is
  accepted at any time, through the chat command and through the status endpoint. The
  status endpoint of both servers has no temporal check: it accepts a completed mark at
  any time as well.
\<close>

theorem temporal_realism:
  "(resolveParent d uid tg = Some p \<and> pickSegment d p (segNum - 1) = Inr child
      \<and> now < endt child
    \<longrightarrow> chat_mark_segment d now uid Completed segNum tg = (Inl StillInFuture, d))
   \<and> (tg \<noteq> [] \<and> resolveParent d uid tg = Some p \<and> childrenOf (eid p) d = []
      \<and> now < endt p
    \<longrightarrow> chat_mark d now uid Completed tg = (Inl StillInFuture, d))
   \<and> (tg \<noteq> [] \<and> resolveParent d uid tg = Some p \<and> k \<in> set (childrenOf (eid p) d)
      \<and> now < endt k
    \<longrightarrow> chat_mark d now uid Completed tg = (Inl StillInFuture, d))
   \<and> (resolveParent d uid tg = Some p \<and> pickSegment d p (segNum - 1) = Inr child
    \<longrightarrow> (\<exists>r. fst (chat_mark_segment d now uid Missed segNum tg) = Inr r))
   \<and> (tg \<noteq> [] \<and> resolveParent d uid tg = Some p
    \<longrightarrow> (\<exists>r. fst (chat_mark d now uid Missed tg) = Inr r))
   \<and> (findById d i = Some ev \<and> parseStatus raw = Some st
    \<longrightarrow> (\<exists>r. fst (patch_status d i raw) = Inr r)
        \<and> (\<exists>r. fst (patch_status_clean recur d i raw) = Inr r))"
proof (intro conjI impI)
  assume "resolveParent d uid tg = Some p \<and> pickSegment d p (segNum - 1) = Inr child
      \<and> now < endt child"
  then show "chat_mark_segment d now uid Completed segNum tg = (Inl StillInFuture, d)"
    by (simp add: chat_mark_segment_def markChild_future)
next
  assume "tg \<noteq> [] \<and> resolveParent d uid tg = Some p \<and> childrenOf (eid p) d = []
      \<and> now < endt p"
  then show "chat_mark d now uid Completed tg = (Inl StillInFuture, d)"
    using chat_mark_future_standalone by blast
next
  assume "tg \<noteq> [] \<and> resolveParent d uid tg = Some p \<and> k \<in> set (childrenOf (eid p) d)
      \<and> now < endt k"
  then show "chat_mark d now uid Completed tg = (Inl StillInFuture, d)"
    using chat_mark_future_kid by blast
next
  assume "resolveParent d uid tg = Some p \<and> pickSegment d p (segNum - 1) = Inr child"
  then show "\<exists>r. fst (chat_mark_segment d now uid Missed segNum tg) = Inr r"
    by (simp add: chat_mark_segment_def markChild_missed)
next
  assume "tg \<noteq> [] \<and> resolveParent d uid tg = Some p"
  then show "\<exists>r. fst (chat_mark d now uid Missed tg) = Inr r"
    by (simp add: chat_mark_missed_closed_form)
next
  assume a: "findById d i = Some ev \<and> parseStatus raw = Some st"
  then show "\<exists>r. fst (patch_status d i raw) = Inr r"
    using patch_status_accepts by blast
  from a show "\<exists>r. fst (patch_status_clean recur d i raw) = Inr r"
    using patch_status_clean_accepts by blast
qed

lemma family_pick:
  "pickSegment (family a b c) (studyTask 1762924800000) 2 = Inr (segmentDoc 2 c)"
  by (simp add: pickSegment_def findOne_def sortBy_def family_def studyTask_def segmentDoc_def)

lemma standalone_parent:
  "resolveParent [studyTask 1762924800000] 7 ''Study react'' = Some (studyTask 1762924800000)"
  "childrenOf (eid (studyTask 1762924800000)) [studyTask 1762924800000] = []"
  "findById [studyTask 1762924800000] 10 = Some (studyTask 1762924800000)"
  by (simp_all add: resolveParent_def findOne_def sortBy_def regexI_def lowerChar_def
        childrenOf_def findById_def studyTask_def)

theorem temporal_realism_witness:
  "chat_mark_segment (family None None None) 1762900000000 7 Completed 3 ''Study react''
     = (Inl StillInFuture, family None None None)
   \<and> chat_mark [studyTask 1762924800000] 1762900000000 7 Completed ''Study react''
     = (Inl StillInFuture, [studyTask 1762924800000])
   \<and> chat_mark (family None None None) 1762900000000 7 Completed ''Study react''
     = (Inl StillInFuture, family None None None)
   \<and> (\<exists>r. fst (chat_mark_segment (family None None None) 1762900000000 7 Missed 3
                    ''Study react'') = Inr r)
   \<and> (\<exists>r. fst (chat_mark (family None None None) 1762900000000 7 Missed ''Study react'')
            = Inr r)
   \<and> (\<exists>r. fst (patch_status [studyTask 1762924800000] 10 ''missed'') = Inr r)"
proof -
  let ?p = "studyTask 1762924800000"
  let ?f = "family None None None"
  have kid: "segmentDoc 2 None \<in> set (childrenOf (eid ?p) ?f)"
    using family_children [of None None None] by (simp add: studyTask_def)
  have fut: "1762900000000 < endt (segmentDoc 2 None)" "1762900000000 < endt ?p"
    by (simp_all add: segmentDoc_def studyTask_def)
  have ps: "parseStatus ''missed'' = Some Missed" by (simp add: parseStatus_def)
  note a = temporal_realism [of ?f 7 "''Study react''" ?p 3 "segmentDoc 2 None" 1762900000000
             "segmentDoc 2 None" 10 ?p "''missed''" Missed]
  note b = temporal_realism [of "[?p]" 7 "''Study react''" ?p 3 "segmentDoc 2 None" 1762900000000
             "segmentDoc 2 None" 10 ?p "''missed''" Missed]
  have "chat_mark [?p] 1762900000000 7 Completed ''Study react'' = (Inl StillInFuture, [?p])"
       "\<exists>r. fst (patch_status [?p] 10 ''missed'') = Inr r"
    using b standalone_parent fut ps by simp_all
  moreover have
       "chat_mark_segment ?f 1762900000000 7 Completed 3 ''Study react'' = (Inl StillInFuture, ?f)"
       "chat_mark ?f 1762900000000 7 Completed ''Study react'' = (Inl StillInFuture, ?f)"
       "\<exists>r. fst (chat_mark_segment ?f 1762900000000 7 Missed 3 ''Study react'') = Inr r"
       "\<exists>r. fst (chat_mark ?f 1762900000000 7 Missed ''Study react'') = Inr r"
    using a family_parent [of None None None] family_pick [of None None None] kid fut
    by simp_all
  ultimately show ?thesis by simp
qed

text \<open>
  C6 as stated fails at the status endpoint: a task that ends after the current time is
  marked completed, in both servers.
\<close>

theorem temporal_realism_counterexample:
  "1762900000000 < endt (studyTask 1762924800000)
   \<and> map status (snd (patch_status [studyTask 1762924800000] 10 ''completed''))
       = [Some Completed]
   \<and> map status (snd (patch_status_clean (\<lambda>doc d. d) [studyTask 1762924800000] 10
                          ''completed''))
       = [Some Completed]"
  by (simp add: patch_status_def patch_status_clean_def postSave_def parseStatus_def
        standalone_parent
        Let_def setStatusById_def updateMany_def)
     (simp add: studyTask_def)


































text \<open>
  The cascade of a task marked completed through the chat command is the one cascade
  whose filter has no condition on the status: once every segment has ended, it writes
  completed over a segment that is missed.
\<close>

lemma chat_completed_cascade_example:
  "map status (snd (chat_mark (family (Some Missed) (Some Completed) (Some Completed))
                      1763000000000 7 Completed ''Study react''))
     = [Some Completed, Some Completed, Some Completed, Some Completed]"
proof -
  let ?f = "family (Some Missed) (Some Completed) (Some Completed)"
  have "chat_mark ?f 1763000000000 7 Completed ''Study react''
          = (Inr \<lparr>markedId = 10, parentFinal = Some Completed\<rparr>,
             setStatusById 10 Completed (updateMany (\<lambda>c. segmentOf c = Some 10) Completed ?f))"
    by (simp add: chat_mark_def family_parent Let_def)
       (simp add: sortBy_def family_def studyTask_def segmentDoc_def)
  then show ?thesis
    by (simp add: setStatusById_def updateMany_def family_def studyTask_def segmentDoc_def)
qed


section \<open>Proofs: month and day phrases\<close>

lemma findMonthDay_invalid: "findMonthDay today m = None"
  by (simp add: findMonthDay_def dayjsTzOfFields_def Let_def split: option.split)

text \<open>
  C9 does not hold of the code. \<^verbatim>\<open>findMonthDay\<close> gives no date for any text, also for a
  text with a month name and a day, with or without a year: the date it builds from the
  fields is invalid, and the function returns null at the validity check, before the
  comparison with today and the move to the next year. The add branch then takes the
  relative day of the text, and today when there is none. On 2 November 2025 the phrase
  "november 12" (a known month word, a date that has not passed) resolves to no date,
  and a task added with it is put on 2 November 2025.
\<close>

theorem month_day_phrase_gives_no_date:
  "findMonthDay today m = None
   \<and> addDateDay today m rel = (case rel of Some d \<Rightarrow> d | None \<Rightarrow> today)
   \<and> monthMapZero (map lowerChar ''november'') = Some 10
   \<and> findMonthDay \<lparr>year = 2025, month = 10, day = 2\<rparr>
         (Some \<lparr>monthWord = ''november'', dayDigits = 12, yearDigits = None\<rparr>) = None
   \<and> addDateDay \<lparr>year = 2025, month = 10, day = 2\<rparr>
         (Some \<lparr>monthWord = ''november'', dayDigits = 12, yearDigits = None\<rparr>) None
       = \<lparr>year = 2025, month = 10, day = 2\<rparr>"
  by (simp add: addDateDay_def findMonthDay_invalid monthMapZero_def lowerChar_def)

end
